theory Spec2Isabelle
  imports Main "HOL-Library.Word" "HOL-Library.Multiset"
begin

section \<open>Data model\<close>

text \<open>
  The inspection document is loaded by \<^verbatim>\<open>json.load\<close>. A loaded JSON value is one of
  Python's \<^verbatim>\<open>None\<close>, \<^verbatim>\<open>bool\<close>, \<^verbatim>\<open>int\<close>, \<^verbatim>\<open>float\<close> (kept as its binary64 bit pattern),
  \<^verbatim>\<open>str\<close>, \<^verbatim>\<open>list\<close> and \<^verbatim>\<open>dict\<close>. A dict is an association list read with
  \<open>map_of\<close>; a character of a \<open>string\<close> stands for one character of a Python \<^verbatim>\<open>str\<close>.
\<close>

datatype json =
    JNull
  | JBool bool
  | JInt int
  | JFloat "64 word"
  | JStr string
  | JArr "json list"
  | JObj "(string \<times> json) list"

datatype py_error = AttributeError | KeyError | TypeError

text \<open>The literal that the source repeats wherever a value cannot be resolved.\<close>

definition NOT_FOUND :: string where
  "NOT_FOUND = ''Data not found in test data''"

subsection \<open>Status normalizer (\<^verbatim>\<open>data_mapper.py\<close>)\<close>

definition STATUS_MAP :: "string \<rightharpoonup> string" where
  "STATUS_MAP =
     [''I'' \<mapsto> ''Inspected'', ''NI'' \<mapsto> ''Not Inspected'',
      ''NP'' \<mapsto> ''Not Present'', ''D'' \<mapsto> ''Deficient'']"

text \<open>
  \<^verbatim>\<open>if not status_code: return "Data not found in test data"\<close>
  \<^verbatim>\<open>return self.STATUS_MAP.get(status_code, status_code)\<close>
  \<^verbatim>\<open>not status_code\<close> holds for \<^verbatim>\<open>None\<close> and for the empty string.
\<close>

definition get_status_label :: "string option \<Rightarrow> string" where
  "get_status_label status_code =
     (case status_code of
        None \<Rightarrow> NOT_FOUND
      | Some c \<Rightarrow>
          if c = [] then NOT_FOUND
          else (case STATUS_MAP c of Some label \<Rightarrow> label | None \<Rightarrow> c))"

text \<open>
  \<^verbatim>\<open>states = {'I': False, 'NI': False, 'NP': False, 'D': False}\<close>
  \<^verbatim>\<open>if status_code and status_code in states: states[status_code] = True\<close>
  \<^verbatim>\<open>elif status_code is None: states['I'] = True\<close>
\<close>

definition get_checkbox_states :: "string option \<Rightarrow> (string \<rightharpoonup> bool)" where
  "get_checkbox_states status_code =
     (let states = [''I'' \<mapsto> False, ''NI'' \<mapsto> False, ''NP'' \<mapsto> False, ''D'' \<mapsto> False]
      in case status_code of
           Some c \<Rightarrow> if c \<noteq> [] \<and> states c \<noteq> None then states(c \<mapsto> True) else states
         | None \<Rightarrow> states(''I'' \<mapsto> True))"

subsection \<open>Field access (\<^verbatim>\<open>DataMapper.get_field_value\<close>)\<close>

text \<open>\<^verbatim>\<open>obj.get(key)\<close>: an attribute error on anything but a dict, \<^verbatim>\<open>None\<close> for a missing key.\<close>

fun dict_get :: "json \<Rightarrow> string \<Rightarrow> py_error + json" where
  "dict_get (JObj kvs) key = Inr (case map_of kvs key of None \<Rightarrow> JNull | Some v \<Rightarrow> v)"
| "dict_get _ key = Inl AttributeError"

fun isinstance_dict :: "json \<Rightarrow> bool" where
  "isinstance_dict (JObj kvs) = True"
| "isinstance_dict _ = False"

text \<open>
  The loop over \<^verbatim>\<open>field_path\<close>. \<open>Inr None\<close> is the early \<^verbatim>\<open>return default\<close>,
  \<open>Inr (Some obj)\<close> the value the loop ends with.
\<close>

fun field_path_loop :: "json \<Rightarrow> string list \<Rightarrow> py_error + json option" where
  "field_path_loop obj [] = Inr (Some obj)"
| "field_path_loop obj (key # rest) =
     (if isinstance_dict obj then
        (case dict_get obj key of
           Inl e \<Rightarrow> Inl e
         | Inr v \<Rightarrow> if v = JNull then Inr None else field_path_loop v rest)
      else Inr None)"

text \<open>
  Python's \<^verbatim>\<open>str\<close> on a loaded value. The text of a float, a list or a dict is the
  library's \<^verbatim>\<open>repr\<close>, taken as the parameter \<open>repr_of\<close>.
\<close>

definition digit_char :: "nat \<Rightarrow> char" where
  "digit_char n = ''0123456789'' ! n"

fun str_nat :: "nat \<Rightarrow> string" where
  "str_nat n = (if n < 10 then [digit_char n] else str_nat (n div 10) @ [digit_char (n mod 10)])"

declare str_nat.simps [simp del]

definition str_int :: "int \<Rightarrow> string" where
  "str_int i = (if i < 0 then CHR ''-'' # str_nat (nat (- i)) else str_nat (nat i))"

fun py_str :: "(json \<Rightarrow> string) \<Rightarrow> json \<Rightarrow> string" where
  "py_str repr_of JNull = ''None''"
| "py_str repr_of (JBool b) = (if b then ''True'' else ''False'')"
| "py_str repr_of (JInt i) = str_int i"
| "py_str repr_of (JStr s) = s"
| "py_str repr_of v = repr_of v"

text \<open>\<^verbatim>\<open>return str(obj) if obj is not None and obj != "" else default\<close>\<close>

definition get_field_value ::
  "(json \<Rightarrow> string) \<Rightarrow> json \<Rightarrow> string list \<Rightarrow> string \<Rightarrow> py_error + string" where
  "get_field_value repr_of inspection field_path default_str =
     (case field_path_loop inspection field_path of
        Inl e \<Rightarrow> Inl e
      | Inr None \<Rightarrow> Inr default_str
      | Inr (Some obj) \<Rightarrow>
          Inr (if obj \<noteq> JNull \<and> obj \<noteq> JStr [] then py_str repr_of obj else default_str))"

text \<open>
  The contract in the specification's words: follow the path through mappings; a step
  on a non-mapping or a missing key resolves to nothing.
\<close>

fun resolve_path :: "json \<Rightarrow> string list \<Rightarrow> json option" where
  "resolve_path v [] = Some v"
| "resolve_path (JObj kvs) (key # rest) =
     (case map_of kvs key of None \<Rightarrow> None | Some v \<Rightarrow> resolve_path v rest)"
| "resolve_path _ (key # rest) = None"

subsection \<open>Timestamps (\<^verbatim>\<open>DataMapper.format_timestamp\<close>)\<close>

record date =
  year :: nat
  month :: nat
  day :: nat

text \<open>Python's truth value of a loaded value (\<^verbatim>\<open>not timestamp\<close>).\<close>

fun py_truthy :: "json \<Rightarrow> bool" where
  "py_truthy JNull = False"
| "py_truthy (JBool b) = b"
| "py_truthy (JInt i) = (i \<noteq> 0)"
| "py_truthy (JFloat w) = (w \<noteq> 0 \<and> w \<noteq> 0x8000000000000000)"
| "py_truthy (JStr s) = (s \<noteq> [])"
| "py_truthy (JArr xs) = (xs \<noteq> [])"
| "py_truthy (JObj kvs) = (kvs \<noteq> [])"

text \<open>\<^verbatim>\<open>timestamp == 0\<close>: numbers compare by value, \<^verbatim>\<open>False\<close> equals \<^verbatim>\<open>0\<close>.\<close>

fun py_eq_zero :: "json \<Rightarrow> bool" where
  "py_eq_zero (JBool b) = (\<not> b)"
| "py_eq_zero (JInt i) = (i = 0)"
| "py_eq_zero (JFloat w) = (w = 0 \<or> w = 0x8000000000000000)"
| "py_eq_zero _ = False"

definition zfill :: "nat \<Rightarrow> string \<Rightarrow> string" where
  "zfill w s = replicate (w - length s) CHR ''0'' @ s"

text \<open>
  \<^verbatim>\<open>dt.strftime("%m/%d/%Y")\<close>: the month and the day with two digits, and the year as
  CPython prints it through the C library on Linux, that is without padding (year 500
  is printed \<^verbatim>\<open>500\<close>).
\<close>

definition strftime_mdY :: "date \<Rightarrow> string" where
  "strftime_mdY dt =
     zfill 2 (str_nat (month dt)) @ ''/'' @ zfill 2 (str_nat (day dt)) @ ''/'' @
     str_nat (year dt)"

text \<open>
  \<^verbatim>\<open>if not timestamp or timestamp == 0: return "Data not found in test data"\<close>
  \<^verbatim>\<open>try: dt = datetime.fromtimestamp(timestamp / 1000); return dt.strftime("%m/%d/%Y")\<close>
  \<^verbatim>\<open>except: return "Data not found in test data"\<close>
  The division and the library's calendar conversion (local time zone) are the parameter
  \<open>fromtimestamp_ms\<close>; it is \<open>None\<close> where \<^verbatim>\<open>datetime.fromtimestamp(timestamp / 1000)\<close>
  raises (a value that is no number, a value out of the platform's range).
\<close>

definition format_timestamp :: "(json \<Rightarrow> date option) \<Rightarrow> json \<Rightarrow> py_error + string" where
  "format_timestamp fromtimestamp_ms timestamp =
     (if \<not> py_truthy timestamp \<or> py_eq_zero timestamp then Inr NOT_FOUND
      else (case fromtimestamp_ms timestamp of
              Some dt \<Rightarrow> Inr (strftime_mdY dt)
            | None \<Rightarrow> Inr NOT_FOUND))"

subsection \<open>The inspection tree (\<^verbatim>\<open>DataMapper\<close>)\<close>

text \<open>
  A well-formed tree, as the accessors read it: every entity is a dict whose keys may be
  missing (\<open>None\<close>), \<^verbatim>\<open>order\<close> is an integer, names and texts are strings, and the
  children are lists. A photo or a video is a dict of loaded values, kept as an
  association list in insertion order.
\<close>

type_synonym media = "(string \<times> json) list"

record comment =
  c_text :: "string option"
  c_order :: "int option"
  c_photos :: "media list option"
  c_videos :: "media list option"

record line_item =
  li_name :: "string option"
  li_order :: "int option"
  li_inspectionStatus :: "string option"
  li_comments :: "comment list option"

record section_rec =
  s_name :: "string option"
  s_order :: "int option"
  s_lineItems :: "line_item list option"

record inspection =
  sections :: "section_rec list option"

text \<open>\<^verbatim>\<open>d.get(key, default)\<close> on a key that may be missing.\<close>

definition get_or :: "'a option \<Rightarrow> 'a \<Rightarrow> 'a" where
  "get_or field default_value = (case field of None \<Rightarrow> default_value | Some v \<Rightarrow> v)"

text \<open>
  Python's \<^verbatim>\<open>sorted(xs, key=f)\<close>, a library function: modelled by the insertion sort
  \<open>sort_key\<close> of the list library.
\<close>

definition py_sorted :: "('a \<Rightarrow> int) \<Rightarrow> 'a list \<Rightarrow> 'a list" where
  "py_sorted key xs = sort_key key xs"

text \<open>The slice \<^verbatim>\<open>xs[a:b]\<close> for indices that are not negative.\<close>

definition py_slice :: "'a list \<Rightarrow> nat \<Rightarrow> nat \<Rightarrow> 'a list" where
  "py_slice xs a b = take (b - a) (drop a xs)"

definition get_sections :: "inspection \<Rightarrow> section_rec list" where
  "get_sections insp = py_sorted (\<lambda>x. get_or (s_order x) 0) (get_or (sections insp) [])"

definition get_line_items_for_section :: "section_rec \<Rightarrow> line_item list" where
  "get_line_items_for_section sec =
     py_sorted (\<lambda>x. get_or (li_order x) 0) (get_or (s_lineItems sec) [])"

definition get_comments_for_line_item :: "line_item \<Rightarrow> comment list" where
  "get_comments_for_line_item item =
     py_sorted (\<lambda>x. get_or (c_order x) 0) (get_or (li_comments item) [])"

definition get_photos_for_comment :: "comment \<Rightarrow> media list" where
  "get_photos_for_comment c = get_or (c_photos c) []"

definition get_videos_for_comment :: "comment \<Rightarrow> media list" where
  "get_videos_for_comment c = get_or (c_videos c) []"

subsection \<open>Media collector (\<^verbatim>\<open>DataMapper.get_all_media\<close>)\<close>

text \<open>\<^verbatim>\<open>d[key] = value\<close>: an existing key keeps its place, a new key goes last.\<close>

fun dict_set :: "media \<Rightarrow> string \<Rightarrow> json \<Rightarrow> media" where
  "dict_set [] key v = [(key, v)]"
| "dict_set ((k, w) # kvs) key v =
     (if k = key then (key, v) # kvs else (k, w) # dict_set kvs key v)"

text \<open>
  \<^verbatim>\<open>photo_with_context = photo.copy()\<close>
  \<^verbatim>\<open>photo_with_context['section_name'] = section.get('name', 'Unknown')\<close>
  \<^verbatim>\<open>photo_with_context['line_item_name'] = line_item.get('name', 'Unknown')\<close>
  \<^verbatim>\<open>photo_with_context['comment_text'] = comment.get('text', '')[:100]\<close>
\<close>

definition with_context :: "section_rec \<Rightarrow> line_item \<Rightarrow> comment \<Rightarrow> media \<Rightarrow> media" where
  "with_context sec item c m =
     dict_set
       (dict_set
          (dict_set m ''section_name'' (JStr (get_or (s_name sec) ''Unknown'')))
          ''line_item_name'' (JStr (get_or (li_name item) ''Unknown'')))
       ''comment_text'' (JStr (py_slice (get_or (c_text c) []) 0 100))"

text \<open>The loops, innermost first; the state is \<^verbatim>\<open>(all_photos, all_videos)\<close>.\<close>

definition media_of_comment ::
  "section_rec \<Rightarrow> line_item \<Rightarrow> media list \<times> media list \<Rightarrow> comment \<Rightarrow> media list \<times> media list" where
  "media_of_comment sec item acc c =
     (let photos = get_photos_for_comment c;
          videos = get_videos_for_comment c;
          all_photos = foldl (\<lambda>ps photo. ps @ [with_context sec item c photo]) (fst acc) photos;
          all_videos = foldl (\<lambda>vs video. vs @ [with_context sec item c video]) (snd acc) videos
      in (all_photos, all_videos))"

definition media_of_line_item ::
  "section_rec \<Rightarrow> media list \<times> media list \<Rightarrow> line_item \<Rightarrow> media list \<times> media list" where
  "media_of_line_item sec acc item =
     foldl (media_of_comment sec item) acc (get_comments_for_line_item item)"

definition media_of_section ::
  "media list \<times> media list \<Rightarrow> section_rec \<Rightarrow> media list \<times> media list" where
  "media_of_section acc sec =
     foldl (media_of_line_item sec) acc (get_line_items_for_section sec)"

definition get_all_media :: "inspection \<Rightarrow> media list \<times> media list" where
  "get_all_media insp = foldl media_of_section ([], []) (get_sections insp)"

subsection \<open>Summary aggregator (\<^verbatim>\<open>DataMapper.get_summary_stats\<close>)\<close>

record stats =
  total_sections :: nat
  total_line_items :: nat
  inspected :: nat
  not_inspected :: nat
  not_present :: nat
  deficient :: nat
  total_photos :: nat
  total_videos :: nat

definition stats_of_comment :: "stats \<Rightarrow> comment \<Rightarrow> stats" where
  "stats_of_comment st c =
     st\<lparr>total_photos := total_photos st + length (get_photos_for_comment c),
        total_videos := total_videos st + length (get_videos_for_comment c)\<rparr>"

definition tally_status :: "stats \<Rightarrow> string option \<Rightarrow> stats" where
  "tally_status st status =
     (if status = Some ''I'' then st\<lparr>inspected := inspected st + 1\<rparr>
      else if status = Some ''NI'' then st\<lparr>not_inspected := not_inspected st + 1\<rparr>
      else if status = Some ''NP'' then st\<lparr>not_present := not_present st + 1\<rparr>
      else if status = Some ''D'' then st\<lparr>deficient := deficient st + 1\<rparr>
      else st)"

definition stats_of_line_item :: "stats \<Rightarrow> line_item \<Rightarrow> stats" where
  "stats_of_line_item st item =
     foldl stats_of_comment (tally_status st (li_inspectionStatus item))
       (get_comments_for_line_item item)"

definition stats_of_section :: "stats \<Rightarrow> section_rec \<Rightarrow> stats" where
  "stats_of_section st sec =
     (let line_items = get_line_items_for_section sec
      in foldl stats_of_line_item
           (st\<lparr>total_line_items := total_line_items st + length line_items\<rparr>) line_items)"

definition get_summary_stats :: "inspection \<Rightarrow> stats" where
  "get_summary_stats insp =
     (let secs = get_sections insp
      in foldl stats_of_section
           \<lparr>total_sections = length secs, total_line_items = 0, inspected = 0,
            not_inspected = 0, not_present = 0, deficient = 0, total_photos = 0,
            total_videos = 0\<rparr> secs)"

subsection \<open>The form document and its fields (\<^verbatim>\<open>trec_field_mapper.py\<close>)\<close>

text \<open>
  The form: its pages, a page the list of its widgets in the order \<^verbatim>\<open>page.widgets()\<close>
  yields them, and the value of every field. A value belongs to the field, which the
  field name identifies: widgets that share a name show the same value, so a write through
  one of them is read back through all of them. \<open>update_raises\<close> says that the form
  library rejects a write through the widget (\<^verbatim>\<open>widget.update()\<close> raises); the source
  catches it.
\<close>

datatype widget_value = NoValue | BoolValue bool | StrValue string

record widget =
  field_name :: string
  field_type :: nat
  update_raises :: bool

record document =
  doc_pages :: "widget list list"
  doc_values :: "string \<Rightarrow> widget_value"

record field_entry =
  fe_name :: string
  fe_type :: nat
  fe_page :: nat

record page_fields =
  checkboxes :: "field_entry list"
  text_fields :: "field_entry list"

text \<open>\<^verbatim>\<open>_analyze_fields\<close>: per page, the checkboxes (type 2) and the text fields (type 7).\<close>

definition analyze_page :: "nat \<Rightarrow> widget list \<Rightarrow> page_fields" where
  "analyze_page page_num ws =
     \<lparr>checkboxes =
        map (\<lambda>w. \<lparr>fe_name = field_name w, fe_type = field_type w, fe_page = page_num\<rparr>)
          (filter (\<lambda>w. field_type w = 2) ws),
      text_fields =
        map (\<lambda>w. \<lparr>fe_name = field_name w, fe_type = field_type w, fe_page = page_num\<rparr>)
          (filter (\<lambda>w. field_type w = 7) ws)\<rparr>"

definition analyze_fields :: "widget list list \<Rightarrow> (nat \<rightharpoonup> page_fields)" where
  "analyze_fields pages =
     (\<lambda>page_num. if page_num < length pages then Some (analyze_page page_num (pages ! page_num))
                 else None)"

definition STATUS_TO_CHECKBOX_INDEX :: "string \<rightharpoonup> nat" where
  "STATUS_TO_CHECKBOX_INDEX = [''I'' \<mapsto> 0, ''NI'' \<mapsto> 1, ''NP'' \<mapsto> 2, ''D'' \<mapsto> 3]"

text \<open>
  \<^verbatim>\<open>for i in range(0, len(checkbox_names), 4):\<close>
  \<^verbatim>\<open>    group = checkbox_names[i:i+4]\<close>
  \<^verbatim>\<open>    if len(group) == 4: groups.append(group)\<close>
\<close>

function group_loop :: "string list \<Rightarrow> nat \<Rightarrow> string list list \<Rightarrow> string list list" where
  "group_loop checkbox_names i groups =
     (if i < length checkbox_names then
        (let group = py_slice checkbox_names i (i + 4)
         in group_loop checkbox_names (i + 4)
              (if length group = 4 then groups @ [group] else groups))
      else groups)"
  by pat_completeness auto
termination
  by (relation "measure (\<lambda>(checkbox_names, i, groups). length checkbox_names - i)") auto

declare group_loop.simps [simp del]

definition get_checkbox_groups :: "(nat \<rightharpoonup> page_fields) \<Rightarrow> nat \<Rightarrow> string list list" where
  "get_checkbox_groups by_page page_num =
     (case by_page page_num of
        None \<Rightarrow> []
      | Some pf \<Rightarrow> group_loop (map fe_name (checkboxes pf)) 0 [])"

definition get_text_fields_for_page :: "(nat \<rightharpoonup> page_fields) \<Rightarrow> nat \<Rightarrow> string list" where
  "get_text_fields_for_page by_page page_num =
     (case by_page page_num of
        None \<Rightarrow> []
      | Some pf \<Rightarrow> map fe_name (text_fields pf))"

definition get_checkbox_count_for_page :: "(nat \<rightharpoonup> page_fields) \<Rightarrow> nat \<Rightarrow> nat" where
  "get_checkbox_count_for_page by_page page_num =
     (case by_page page_num of
        None \<Rightarrow> 0
      | Some pf \<Rightarrow> length (checkboxes pf))"

text \<open>
  The search \<^verbatim>\<open>for page in doc: for widget in page.widgets(): if <match>: ...\<close> with a
  \<^verbatim>\<open>return\<close> in its body: the first matching widget, pages in order, ends the search.
  On a page, \<open>None\<close> says that no widget matched and the search goes on;
  \<open>Some (values, ok)\<close> is the field values after the write and whether the write went
  through.
\<close>

fun write_on_page ::
  "(widget \<Rightarrow> bool) \<Rightarrow> widget_value \<Rightarrow> (string \<Rightarrow> widget_value) \<Rightarrow> widget list \<Rightarrow>
   ((string \<Rightarrow> widget_value) \<times> bool) option" where
  "write_on_page match v vals [] = None"
| "write_on_page match v vals (w # ws) =
     (if match w then
        (if update_raises w then Some (vals, False)
         else Some (vals(field_name w := v), True))
      else write_on_page match v vals ws)"

fun write_in_pages ::
  "(widget \<Rightarrow> bool) \<Rightarrow> widget_value \<Rightarrow> (string \<Rightarrow> widget_value) \<Rightarrow> widget list list \<Rightarrow>
   (string \<Rightarrow> widget_value) \<times> bool" where
  "write_in_pages match v vals [] = (vals, False)"
| "write_in_pages match v vals (p # ps) =
     (case write_on_page match v vals p of
        Some r \<Rightarrow> r
      | None \<Rightarrow> write_in_pages match v vals ps)"

definition write_in_doc :: "(widget \<Rightarrow> bool) \<Rightarrow> widget_value \<Rightarrow> document \<Rightarrow> document \<times> bool" where
  "write_in_doc match v doc =
     (case write_in_pages match v (doc_values doc) (doc_pages doc) of
        (vals, ok) \<Rightarrow> (doc\<lparr>doc_values := vals\<rparr>, ok))"

text \<open>
  \<^verbatim>\<open>if not status or status not in self.STATUS_TO_CHECKBOX_INDEX: status = 'I'\<close>
  \<^verbatim>\<open>checkbox_idx = self.STATUS_TO_CHECKBOX_INDEX[status]\<close>
  \<^verbatim>\<open>if checkbox_idx >= len(checkbox_group): return 0\<close>
  \<^verbatim>\<open>checkbox_name = checkbox_group[checkbox_idx]\<close>
  and the search for the widget of that name. The result is the document after the call
  and the number returned.
\<close>

definition fill_checkbox_for_status ::
  "document \<Rightarrow> string list \<Rightarrow> string option \<Rightarrow> py_error + document \<times> nat" where
  "fill_checkbox_for_status doc checkbox_group status =
     (let status' = (case status of
                       None \<Rightarrow> ''I''
                     | Some s \<Rightarrow> if s = [] \<or> STATUS_TO_CHECKBOX_INDEX s = None then ''I'' else s)
      in case STATUS_TO_CHECKBOX_INDEX status' of
           None \<Rightarrow> Inl KeyError
         | Some checkbox_idx \<Rightarrow>
             if checkbox_idx \<ge> length checkbox_group then Inr (doc, 0)
             else (let checkbox_name = checkbox_group ! checkbox_idx
                   in case write_in_doc (\<lambda>w. field_name w = checkbox_name) (BoolValue True) doc of
                        (doc', ok) \<Rightarrow> Inr (doc', if ok then 1 else 0)))"

definition fill_text_field :: "document \<Rightarrow> string \<Rightarrow> string \<Rightarrow> document \<times> bool" where
  "fill_text_field doc name v =
     write_in_doc (\<lambda>w. field_name w = name \<and> field_type w = 7) (StrValue v) doc"

subsection \<open>Form field paginator (\<^verbatim>\<open>fill_line_items_on_page\<close>, \<^verbatim>\<open>_fill_inspection_checkboxes\<close>)\<close>

text \<open>
  The dict that \<^verbatim>\<open>_fill_inspection_checkboxes\<close> builds for each line item. It always
  has the key \<^verbatim>\<open>inspectionStatus\<close> (its value may be \<^verbatim>\<open>None\<close>), so the default of
  \<^verbatim>\<open>line_item.get('inspectionStatus', 'I')\<close> in the page driver never applies.
\<close>

record flat_item =
  fl_section :: string
  fl_name :: string
  fl_inspectionStatus :: "string option"
  fl_comments :: "comment list"

text \<open>
  The text of the first comment, cut at 200 characters, written to the slot's text field:
  \<^verbatim>\<open>if comments and comments[0].get('text'): ... comments[0]['text'][:200]\<close>
\<close>

definition fill_slot_text :: "document \<Rightarrow> string \<Rightarrow> flat_item \<Rightarrow> document" where
  "fill_slot_text doc text_field_name line_item =
     (case fl_comments line_item of
        [] \<Rightarrow> doc
      | c # cs \<Rightarrow>
          (case c_text c of
             None \<Rightarrow> doc
           | Some t \<Rightarrow> if t = [] then doc
                       else fst (fill_text_field doc text_field_name (py_slice t 0 200))))"

text \<open>
  The loop \<^verbatim>\<open>for i, checkbox_group in enumerate(checkbox_groups)\<close>; the state is the
  document, \<^verbatim>\<open>checkboxes_filled\<close> and \<^verbatim>\<open>items_processed\<close>.
\<close>

fun page_loop ::
  "string list \<Rightarrow> flat_item list \<Rightarrow> nat \<Rightarrow> nat \<Rightarrow> string list list \<Rightarrow>
   document \<times> nat \<times> nat \<Rightarrow> py_error + document \<times> nat \<times> nat" where
  "page_loop text_flds line_items start_idx i [] st = Inr st"
| "page_loop text_flds line_items start_idx i (checkbox_group # rest)
     (doc, checkboxes_filled, items_processed) =
     (let item_idx = start_idx + i
      in if item_idx \<ge> length line_items then Inr (doc, checkboxes_filled, items_processed)
         else (let line_item = line_items ! item_idx;
                   status = fl_inspectionStatus line_item
               in case fill_checkbox_for_status doc checkbox_group status of
                    Inl e \<Rightarrow> Inl e
                  | Inr (doc1, filled) \<Rightarrow>
                      page_loop text_flds line_items start_idx (i + 1) rest
                        (if i < length text_flds
                         then fill_slot_text doc1 (text_flds ! i) line_item else doc1,
                         checkboxes_filled + filled, items_processed + 1)))"

definition fill_line_items_on_page ::
  "document \<Rightarrow> (nat \<rightharpoonup> page_fields) \<Rightarrow> nat \<Rightarrow> flat_item list \<Rightarrow> nat \<Rightarrow>
   py_error + document \<times> nat \<times> nat" where
  "fill_line_items_on_page doc by_page page_num line_items start_idx =
     page_loop (get_text_fields_for_page by_page page_num) line_items start_idx 0
       (get_checkbox_groups by_page page_num) (doc, 0, 0)"

definition flatten_item :: "section_rec \<Rightarrow> line_item \<Rightarrow> flat_item" where
  "flatten_item sec item =
     \<lparr>fl_section = get_or (s_name sec) ''Unknown'',
      fl_name = get_or (li_name item) ''Unknown'',
      fl_inspectionStatus = li_inspectionStatus item,
      fl_comments = get_or (li_comments item) []\<rparr>"

definition all_line_items :: "inspection \<Rightarrow> flat_item list" where
  "all_line_items insp =
     foldl (\<lambda>acc sec. foldl (\<lambda>acc' item. acc' @ [flatten_item sec item]) acc
                         (get_line_items_for_section sec))
       [] (get_sections insp)"

definition page_mappings :: "(nat \<times> nat \<times> nat) list" where
  "page_mappings = [(2, 0, 12), (3, 12, 22), (4, 22, 34), (5, 34, 41)]"

text \<open>
  One round of \<^verbatim>\<open>for page_idx, start_idx, end_idx in page_mappings\<close>; the state is the
  document and the two totals.
\<close>

definition fill_mapped_page ::
  "(nat \<rightharpoonup> page_fields) \<Rightarrow> flat_item list \<Rightarrow> document \<times> nat \<times> nat \<Rightarrow> nat \<times> nat \<times> nat \<Rightarrow>
   py_error + document \<times> nat \<times> nat" where
  "fill_mapped_page by_page items st m =
     (case (st, m) of
        ((doc, total_checkboxes_filled, total_items_processed), (page_idx, start_idx, end_idx)) \<Rightarrow>
          (let items_for_page = py_slice items start_idx end_idx
           in if items_for_page \<noteq> [] then
                (case fill_line_items_on_page doc by_page page_idx items_for_page 0 of
                   Inl e \<Rightarrow> Inl e
                 | Inr (doc', filled, processed) \<Rightarrow>
                     Inr (doc', total_checkboxes_filled + filled,
                          total_items_processed + processed))
              else Inr st))"

fun mapping_loop ::
  "(nat \<rightharpoonup> page_fields) \<Rightarrow> flat_item list \<Rightarrow> (nat \<times> nat \<times> nat) list \<Rightarrow>
   document \<times> nat \<times> nat \<Rightarrow> py_error + document \<times> nat \<times> nat" where
  "mapping_loop by_page items [] st = Inr st"
| "mapping_loop by_page items (m # ms) st =
     (case fill_mapped_page by_page items st m of
        Inl e \<Rightarrow> Inl e
      | Inr st' \<Rightarrow> mapping_loop by_page items ms st')"

definition fill_inspection_checkboxes ::
  "document \<Rightarrow> (nat \<rightharpoonup> page_fields) \<Rightarrow> inspection \<Rightarrow> py_error + document \<times> nat \<times> nat" where
  "fill_inspection_checkboxes doc by_page insp =
     mapping_loop by_page (all_line_items insp) page_mappings (doc, 0, 0)"

subsection \<open>Notions used in the statements\<close>

definition status_codes :: "string set" where
  "status_codes = {''I'', ''NI'', ''NP'', ''D''}"

text \<open>The keys among I, NI, NP, D whose checkbox a state dict has set.\<close>

definition checked_keys :: "(string \<rightharpoonup> bool) \<Rightarrow> string list" where
  "checked_keys states = filter (\<lambda>k. states k = Some True) [''I'', ''NI'', ''NP'', ''D'']"

text \<open>The shape MM/DD/YYYY: ten characters, digits around two slashes.\<close>

definition is_digit :: "char \<Rightarrow> bool" where
  "is_digit c = (48 \<le> (of_char c :: nat) \<and> (of_char c :: nat) \<le> 57)"

definition is_mm_dd_yyyy :: "string \<Rightarrow> bool" where
  "is_mm_dd_yyyy s =
     (length s = 10 \<and> s ! 2 = CHR ''/'' \<and> s ! 5 = CHR ''/'' \<and>
      list_all (\<lambda>i. is_digit (s ! i)) [0, 1, 3, 4, 6, 7, 8, 9])"

text \<open>
  Stable ascending order: the keys of the output ascend, the output is a rearrangement
  of the input, and the entities of each key keep their original relative order.
\<close>

definition order_key :: "int option \<Rightarrow> int" where
  "order_key ord = get_or ord 0"

definition stably_sorted :: "('a \<Rightarrow> int) \<Rightarrow> 'a list \<Rightarrow> 'a list \<Rightarrow> bool" where
  "stably_sorted key xs ys =
     (sorted (map key ys) \<and> mset ys = mset xs \<and>
      (\<forall>k. filter (\<lambda>x. key x = k) ys = filter (\<lambda>x. key x = k) xs))"

text \<open>
  An entity without an order key sorts as 0: it stands before every sibling whose order is
  positive, and the key-0 siblings keep their original relative order.
\<close>

definition missing_first :: "('a \<Rightarrow> int option) \<Rightarrow> 'a list \<Rightarrow> 'a list \<Rightarrow> bool" where
  "missing_first ord xs ys =
     ((\<forall>i j k. i < length ys \<and> j < length ys \<and> ord (ys ! i) = None \<and>
               ord (ys ! j) = Some k \<and> 0 < k \<longrightarrow> i < j) \<and>
      filter (\<lambda>x. order_key (ord x) = 0) ys = filter (\<lambda>x. order_key (ord x) = 0) xs \<and>
      mset ys = mset xs)"

text \<open>The flattened media of one line item and of one section, in traversal order.\<close>

definition photos_of_line_item :: "section_rec \<Rightarrow> line_item \<Rightarrow> media list" where
  "photos_of_line_item sec item =
     concat (map (\<lambda>c. map (with_context sec item c) (get_photos_for_comment c))
               (get_comments_for_line_item item))"

definition videos_of_line_item :: "section_rec \<Rightarrow> line_item \<Rightarrow> media list" where
  "videos_of_line_item sec item =
     concat (map (\<lambda>c. map (with_context sec item c) (get_videos_for_comment c))
               (get_comments_for_line_item item))"

definition photos_of_section :: "section_rec \<Rightarrow> media list" where
  "photos_of_section sec =
     concat (map (photos_of_line_item sec) (get_line_items_for_section sec))"

definition videos_of_section :: "section_rec \<Rightarrow> media list" where
  "videos_of_section sec =
     concat (map (videos_of_line_item sec) (get_line_items_for_section sec))"

text \<open>
  The index that a status selects in a checkbox group ordered I, NI, NP, D; an absent or
  unrecognized status selects I.
\<close>

definition selected_index :: "string option \<Rightarrow> nat" where
  "selected_index status =
     (if status = Some ''NI'' then 1 else if status = Some ''NP'' then 2
      else if status = Some ''D'' then 3 else 0)"

text \<open>
  The per-page driver in the specification's words: the groups are zipped with the items
  positionally, slot \<open>i\<close> taking pair \<open>i\<close>, until either list is exhausted.
\<close>

fun place_pairs ::
  "string list \<Rightarrow> nat \<Rightarrow> (string list \<times> flat_item) list \<Rightarrow> document \<times> nat \<times> nat \<Rightarrow>
   py_error + document \<times> nat \<times> nat" where
  "place_pairs text_flds i [] st = Inr st"
| "place_pairs text_flds i ((checkbox_group, line_item) # rest) (doc, filled, processed) =
     (case fill_checkbox_for_status doc checkbox_group (fl_inspectionStatus line_item) of
        Inl e \<Rightarrow> Inl e
      | Inr (doc1, n) \<Rightarrow>
          place_pairs text_flds (i + 1) rest
            (if i < length text_flds then fill_slot_text doc1 (text_flds ! i) line_item else doc1,
             filled + n, processed + 1))"

text \<open>
  A placement: the page, the slot on the page, the checkbox group of the slot, and the
  index of the line item in the flattened sequence. A row of the page table places, slot
  by slot, the items of its range on the groups of its page, as many as both have.
\<close>

type_synonym placement = "nat \<times> nat \<times> string list \<times> nat"

definition row_placements ::
  "(nat \<rightharpoonup> page_fields) \<Rightarrow> flat_item list \<Rightarrow> nat \<times> nat \<times> nat \<Rightarrow> placement list" where
  "row_placements by_page items m =
     (case m of (page_idx, start_idx, end_idx) \<Rightarrow>
        map (\<lambda>k. (page_idx, k, get_checkbox_groups by_page page_idx ! k, start_idx + k))
          [0..<min (length (get_checkbox_groups by_page page_idx))
                 (length (py_slice items start_idx end_idx))])"

text \<open>The reference table: page 2 takes [0,12), page 3 [12,22), page 4 [22,34), page 5 [34,41).\<close>

definition table_placements :: "(nat \<rightharpoonup> page_fields) \<Rightarrow> flat_item list \<Rightarrow> placement list" where
  "table_placements by_page items =
     concat (map (row_placements by_page items) [(2, 0, 12), (3, 12, 22), (4, 22, 34), (5, 34, 41)])"

text \<open>
  Carrying out placements in order: the checkbox of the item's status in the group, then
  the text field of the slot if the page has one; the two counters count the checkboxes
  filled and the items placed.
\<close>

fun run_placements ::
  "(nat \<rightharpoonup> page_fields) \<Rightarrow> flat_item list \<Rightarrow> placement list \<Rightarrow> document \<times> nat \<times> nat \<Rightarrow>
   py_error + document \<times> nat \<times> nat" where
  "run_placements by_page items [] st = Inr st"
| "run_placements by_page items ((page_idx, k, checkbox_group, idx) # rest) (doc, filled, processed) =
     (case fill_checkbox_for_status doc checkbox_group (fl_inspectionStatus (items ! idx)) of
        Inl e \<Rightarrow> Inl e
      | Inr (doc1, n) \<Rightarrow>
          run_placements by_page items rest
            (if k < length (get_text_fields_for_page by_page page_idx)
             then fill_slot_text doc1 (get_text_fields_for_page by_page page_idx ! k) (items ! idx)
             else doc1,
             filled + n, processed + 1))"

subsection \<open>Example inputs\<close>

definition ex_comment_a :: comment where
  "ex_comment_a =
     \<lparr>c_text = Some ''Crack in slab'', c_order = Some 2,
      c_photos = Some [[(''url'', JStr ''p1'')]], c_videos = None\<rparr>"

definition ex_comment_b :: comment where
  "ex_comment_b =
     \<lparr>c_text = None, c_order = None,
      c_photos = Some [[(''url'', JStr ''p2'')], [(''url'', JStr ''p3''), (''section_name'', JNull)]],
      c_videos = Some [[(''url'', JStr ''v1'')]]\<rparr>"

definition ex_comment_long :: comment where
  "ex_comment_long =
     \<lparr>c_text = Some (replicate 120 CHR ''x''), c_order = Some 1, c_photos = None,
      c_videos = None\<rparr>"

definition ex_item_a :: line_item where
  "ex_item_a =
     \<lparr>li_name = Some ''Foundations'', li_order = Some 1, li_inspectionStatus = Some ''D'',
      li_comments = Some [ex_comment_a, ex_comment_b]\<rparr>"

definition ex_item_b :: line_item where
  "ex_item_b =
     \<lparr>li_name = None, li_order = None, li_inspectionStatus = None, li_comments = None\<rparr>"

definition ex_section_a :: section_rec where
  "ex_section_a =
     \<lparr>s_name = Some ''Structural'', s_order = Some 1, s_lineItems = Some [ex_item_a, ex_item_b]\<rparr>"

definition ex_section_b :: section_rec where
  "ex_section_b = \<lparr>s_name = Some ''Electrical'', s_order = None, s_lineItems = None\<rparr>"

definition ex_section_c :: section_rec where
  "ex_section_c = \<lparr>s_name = None, s_order = Some 1, s_lineItems = Some []\<rparr>"

definition ex_inspection :: inspection where
  "ex_inspection = \<lparr>sections = Some [ex_section_a, ex_section_b, ex_section_c]\<rparr>"

definition ex_checkbox :: "string \<Rightarrow> widget" where
  "ex_checkbox name = \<lparr>field_name = name, field_type = 2, update_raises = False\<rparr>"

definition ex_text_field :: "string \<Rightarrow> widget" where
  "ex_text_field name = \<lparr>field_name = name, field_type = 7, update_raises = False\<rparr>"

definition ex_doc :: "widget list list" where
  "ex_doc =
     [[], [],
      [ex_checkbox ''I1'', ex_checkbox ''NI1'', ex_checkbox ''NP1'', ex_text_field ''T1'',
       ex_checkbox ''D1'', ex_checkbox ''I2'']]"

text \<open>A blank form: on its third page two checkbox groups and two text fields.\<close>

definition ex_form_pages :: "widget list list" where
  "ex_form_pages =
     [[], [],
      [ex_checkbox ''I1'', ex_checkbox ''NI1'', ex_checkbox ''NP1'', ex_checkbox ''D1'',
       ex_text_field ''T1'', ex_checkbox ''I2'', ex_checkbox ''NI2'', ex_checkbox ''NP2'',
       ex_checkbox ''D2'', ex_text_field ''T2'', ex_checkbox ''I3'']]"

definition ex_form :: document where
  "ex_form = \<lparr>doc_pages = ex_form_pages, doc_values = (\<lambda>name. NoValue)\<rparr>"

text \<open>A form whose only widget is the checkbox a.\<close>

definition ex_form_a :: document where
  "ex_form_a = \<lparr>doc_pages = [[ex_checkbox ''a'']], doc_values = (\<lambda>name. NoValue)\<rparr>"

definition ex_tree :: json where
  "ex_tree =
     JObj [(''clientInfo'', JObj [(''name'', JStr ''Ann''), (''email'', JStr [])]),
           (''schedule'', JInt 5), (''inspector'', JNull)]"

definition ex_date :: date where
  "ex_date = \<lparr>year = 2024, month = 3, day = 9\<rparr>"

text \<open>A calendar conversion that knows one instant and fails on everything else.\<close>

definition ex_clock :: "json \<Rightarrow> date option" where
  "ex_clock t = (if t = JInt 1709942400000 then Some ex_date else None)"

text \<open>The first day of the year 500, and a calendar conversion that knows its instant.\<close>

definition ex_date_500 :: date where
  "ex_date_500 = \<lparr>year = 500, month = 1, day = 1\<rparr>"

definition ex_clock_500 :: "json \<Rightarrow> date option" where
  "ex_clock_500 t = (if t = JInt (- 46388678400000) then Some ex_date_500 else None)"

lemmas ex_tree_defs = ex_comment_a_def ex_comment_b_def ex_item_a_def ex_item_b_def
  ex_section_a_def ex_section_b_def ex_section_c_def ex_inspection_def

section \<open>Status normalizer\<close>

text \<open>
  C1, as the code has it. The four codes I, NI, NP, D map to the labels Inspected,
  Not Inspected, Not Present, Deficient; an absent code (\<^verbatim>\<open>None\<close>) and the empty string
  return the sentinel \<^verbatim>\<open>Data not found in test data\<close>; any other code is returned
  unchanged, since the lookup is \<^verbatim>\<open>STATUS_MAP.get(status_code, status_code)\<close>.
\<close>

theorem get_status_label_cases:
  "get_status_label (Some ''I'') = ''Inspected'' \<and>
   get_status_label (Some ''NI'') = ''Not Inspected'' \<and>
   get_status_label (Some ''NP'') = ''Not Present'' \<and>
   get_status_label (Some ''D'') = ''Deficient'' \<and>
   get_status_label None = NOT_FOUND \<and>
   get_status_label (Some []) = NOT_FOUND \<and>
   (\<forall>c. c \<noteq> [] \<and> c \<notin> status_codes \<longrightarrow> get_status_label (Some c) = c)"
  by (auto simp: get_status_label_def STATUS_MAP_def status_codes_def NOT_FOUND_def)

theorem get_status_label_cases_witness:
  "''X'' \<noteq> [] \<and> ''X'' \<notin> status_codes \<and> get_status_label (Some ''X'') = ''X'' \<and>
   get_status_label (Some ''D'') = ''Deficient''"
  using get_status_label_cases by (simp add: status_codes_def)

text \<open>
  C1 as stated says that an unknown code returns the sentinel. The unknown code
  \<^verbatim>\<open>X\<close> comes back as \<^verbatim>\<open>X\<close>.
\<close>

theorem get_status_label_unknown_counterexample:
  "''X'' \<notin> status_codes \<and> get_status_label (Some ''X'') = ''X'' \<and>
   get_status_label (Some ''X'') \<noteq> NOT_FOUND"
  by (simp add: get_status_label_def STATUS_MAP_def NOT_FOUND_def status_codes_def)

text \<open>
  C2. \<^verbatim>\<open>get_checkbox_states\<close> returns a dict over exactly the keys I, NI, NP, D. For an
  absent status the one key set is I; for each of the four codes the one key set is that
  code; for any other status string (the empty string too) all four values are false.
\<close>

theorem get_checkbox_states_one_hot:
  "checked_keys (get_checkbox_states None) = [''I''] \<and>
   (\<forall>c \<in> status_codes. checked_keys (get_checkbox_states (Some c)) = [c]) \<and>
   (\<forall>c. c \<notin> status_codes \<longrightarrow>
        checked_keys (get_checkbox_states (Some c)) = [] \<and>
        (\<forall>k \<in> status_codes. get_checkbox_states (Some c) k = Some False)) \<and>
   dom (get_checkbox_states status) = status_codes"
  by (cases status) (auto simp: get_checkbox_states_def checked_keys_def status_codes_def Let_def)

theorem get_checkbox_states_one_hot_witness:
  "''NP'' \<in> status_codes \<and> checked_keys (get_checkbox_states (Some ''NP'')) = [''NP''] \<and>
   ''np'' \<notin> status_codes \<and> checked_keys (get_checkbox_states (Some ''np'')) = [] \<and>
   get_checkbox_states (Some ''np'') ''I'' = Some False \<and>
   get_checkbox_states (Some []) ''I'' = Some False"
  using get_checkbox_states_one_hot [of None] by (simp add: status_codes_def)

section \<open>Record loader\<close>

subsection \<open>Field access\<close>

lemma field_path_loop_resolve:
  "field_path_loop obj path =
     Inr (if resolve_path obj path = Some JNull \<and> path \<noteq> [] then None
          else resolve_path obj path)"
proof (induction path arbitrary: obj)
  case Nil
  show ?case by simp
next
  case (Cons key rest)
  show ?case
  proof (cases obj)
    case (JObj kvs)
    show ?thesis
    proof (cases "map_of kvs key")
      case None
      with JObj show ?thesis by simp
    next
      case (Some v)
      show ?thesis
      proof (cases "v = JNull")
        case True
        with JObj Some show ?thesis by (cases rest) simp_all
      next
        case False
        with JObj Some Cons.IH [of v] show ?thesis by (cases rest) simp_all
      qed
    qed
  qed simp_all
qed

lemma get_field_value_resolve:
  "get_field_value repr_of insp path d =
     Inr (case resolve_path insp path of
            None \<Rightarrow> d
          | Some v \<Rightarrow> if v = JNull \<or> v = JStr [] then d else py_str repr_of v)"
  by (simp add: get_field_value_def field_path_loop_resolve split: option.splits)

subsection \<open>Timestamps\<close>

lemma is_digit_digit_char: "n < 10 \<Longrightarrow> is_digit (digit_char n)"
proof -
  assume "n < 10"
  then have "n \<in> {0, 1, 2, 3, 4, 5, 6, 7, 8, 9}" by auto
  then show ?thesis by (auto simp: is_digit_def digit_char_def)
qed

lemma digit_char_0: "digit_char 0 = CHR ''0''"
  by (simp add: digit_char_def)

lemma str_nat_small: "n < 10 \<Longrightarrow> str_nat n = [digit_char n]"
  by (subst str_nat.simps) simp

lemma replicate_small:
  "replicate 2 x = [x, x]" "replicate 3 x = [x, x, x]"
  by (simp_all add: numeral_2_eq_2 numeral_3_eq_3)

lemma zfill2: "n < 100 \<Longrightarrow> zfill 2 (str_nat n) = [digit_char (n div 10), digit_char (n mod 10)]"
proof (cases "n < 10")
  case True
  then show ?thesis by (simp add: str_nat_small zfill_def digit_char_0)
next
  case False
  assume "n < 100"
  then have "n div 10 < 10" by simp
  with False show ?thesis
    by (subst str_nat.simps) (simp add: str_nat_small zfill_def)
qed

lemma str_nat4:
  assumes "1000 \<le> n" "n < 10000"
  shows "str_nat n =
     [digit_char (n div 1000), digit_char (n div 100 mod 10), digit_char (n div 10 mod 10),
      digit_char (n mod 10)]"
proof -
  from assms have a: "\<not> n < 10" "\<not> n div 10 < 10" and b: "\<not> n div 10 div 10 < 10"
    and c: "n div 10 div 10 div 10 < 10" by simp_all
  have d: "n div 10 div 10 = n div 100" "n div 10 div 10 div 10 = n div 1000"
    "n div 100 div 10 = n div 1000"
    by (simp_all add: div_mult2_eq)
  from a b c show ?thesis
    by (subst str_nat.simps, subst str_nat.simps, subst str_nat.simps)
       (simp add: str_nat_small d)
qed

lemma strftime_shape:
  assumes "month dt < 100" "day dt < 100" "1000 \<le> year dt" "year dt < 10000"
  shows "is_mm_dd_yyyy (strftime_mdY dt)"
proof -
  have "month dt div 10 < 10" "month dt mod 10 < 10" "day dt div 10 < 10" "day dt mod 10 < 10"
    "year dt div 1000 < 10" "year dt div 100 mod 10 < 10" "year dt div 10 mod 10 < 10"
    "year dt mod 10 < 10"
    using assms by simp_all
  then show ?thesis
    using assms
    by (simp add: strftime_mdY_def zfill2 str_nat4 is_mm_dd_yyyy_def is_digit_digit_char)
qed

lemma format_timestamp_total: "\<exists>s. format_timestamp fromtimestamp_ms ts = Inr s"
  by (simp add: format_timestamp_def split: option.splits)

lemma format_timestamp_not_found:
  "\<not> py_truthy ts \<or> fromtimestamp_ms ts = None \<Longrightarrow>
   format_timestamp fromtimestamp_ms ts = Inr NOT_FOUND"
  by (auto simp: format_timestamp_def split: option.splits)

lemma format_timestamp_date:
  "py_truthy ts \<Longrightarrow> fromtimestamp_ms ts = Some dt \<Longrightarrow>
   format_timestamp fromtimestamp_ms ts = Inr (strftime_mdY dt)"
  by (cases ts) (auto simp: format_timestamp_def)

lemma ex_strftime: "strftime_mdY ex_date = ''03/09/2024''"
  by (simp add: ex_date_def strftime_mdY_def zfill2 str_nat4 digit_char_def)

lemma ex_strftime_500: "strftime_mdY ex_date_500 = ''01/01/500''"
  by (simp add: ex_date_500_def strftime_mdY_def zfill_def str_nat.simps digit_char_def)

text \<open>
  C3, as the code has it. \<^verbatim>\<open>get_field_value\<close> never raises, for any loaded tree and
  any path: it returns the default when a step of the path meets a value that is no mapping
  or a key that is missing, and when the value reached is \<^verbatim>\<open>None\<close> or the empty string;
  otherwise the text of the value. \<^verbatim>\<open>format_timestamp\<close> never raises either: a missing
  (\<^verbatim>\<open>None\<close>), zero or otherwise falsy timestamp and one that the calendar conversion
  rejects give the sentinel; any other gives the date as \<^verbatim>\<open>strftime("%m/%d/%Y")\<close> prints
  it, which has the shape MM/DD/YYYY when the year has four digits (1000 to 9999).
\<close>

theorem field_access_never_raises:
  "get_field_value repr_of insp path d =
     Inr (case resolve_path insp path of
            None \<Rightarrow> d
          | Some v \<Rightarrow> if v = JNull \<or> v = JStr [] then d else py_str repr_of v) \<and>
   (\<exists>s. format_timestamp fromtimestamp_ms ts = Inr s) \<and>
   (ts = JNull \<or> ts = JInt 0 \<or> \<not> py_truthy ts \<or> fromtimestamp_ms ts = None \<longrightarrow>
      format_timestamp fromtimestamp_ms ts = Inr NOT_FOUND) \<and>
   (py_truthy ts \<and> fromtimestamp_ms ts = Some dt \<longrightarrow>
      format_timestamp fromtimestamp_ms ts = Inr (strftime_mdY dt) \<and>
      (1 \<le> month dt \<and> month dt \<le> 12 \<and> 1 \<le> day dt \<and> day dt \<le> 31 \<and>
       1000 \<le> year dt \<and> year dt \<le> 9999 \<longrightarrow> is_mm_dd_yyyy (strftime_mdY dt)))"
proof -
  have "ts = JNull \<or> ts = JInt 0 \<or> \<not> py_truthy ts \<or> fromtimestamp_ms ts = None \<longrightarrow>
      format_timestamp fromtimestamp_ms ts = Inr NOT_FOUND"
    using format_timestamp_not_found [of ts fromtimestamp_ms] by auto
  moreover have "1 \<le> month dt \<and> month dt \<le> 12 \<and> 1 \<le> day dt \<and> day dt \<le> 31 \<and>
       1000 \<le> year dt \<and> year dt \<le> 9999 \<longrightarrow> is_mm_dd_yyyy (strftime_mdY dt)"
    using strftime_shape [of dt] by simp
  ultimately show ?thesis
    using get_field_value_resolve format_timestamp_total format_timestamp_date by blast
qed

theorem field_access_never_raises_witness:
  "resolve_path ex_tree [''clientInfo'', ''name''] = Some (JStr ''Ann'') \<and>
   get_field_value (\<lambda>v. []) ex_tree [''clientInfo'', ''name''] NOT_FOUND = Inr ''Ann'' \<and>
   py_truthy (JInt 1709942400000) \<and> ex_clock (JInt 1709942400000) = Some ex_date \<and>
   1 \<le> month ex_date \<and> month ex_date \<le> 12 \<and> 1 \<le> day ex_date \<and> day ex_date \<le> 31 \<and>
   1000 \<le> year ex_date \<and> year ex_date \<le> 9999 \<and>
   format_timestamp ex_clock (JInt 1709942400000) = Inr ''03/09/2024'' \<and>
   is_mm_dd_yyyy ''03/09/2024'' \<and>
   resolve_path ex_tree [''schedule'', ''date''] = None \<and>
   get_field_value (\<lambda>v. []) ex_tree [''schedule'', ''date''] NOT_FOUND = Inr NOT_FOUND \<and>
   resolve_path ex_tree [''clientInfo'', ''email''] = Some (JStr []) \<and>
   get_field_value (\<lambda>v. []) ex_tree [''clientInfo'', ''email''] NOT_FOUND = Inr NOT_FOUND \<and>
   format_timestamp ex_clock (JInt 0) = Inr NOT_FOUND \<and>
   ex_clock (JStr ''soon'') = None \<and>
   format_timestamp ex_clock (JStr ''soon'') = Inr NOT_FOUND"
  using field_access_never_raises
    [where repr_of = "\<lambda>v. []" and insp = ex_tree and path = "[''clientInfo'', ''name'']"
       and d = NOT_FOUND and fromtimestamp_ms = ex_clock and ts = "JInt 1709942400000"
       and dt = ex_date]
    field_access_never_raises
    [where repr_of = "\<lambda>v. []" and insp = ex_tree and path = "[''schedule'', ''date'']"
       and d = NOT_FOUND and fromtimestamp_ms = ex_clock and ts = "JInt 0" and dt = ex_date]
    field_access_never_raises
    [where repr_of = "\<lambda>v. []" and insp = ex_tree and path = "[''clientInfo'', ''email'']"
       and d = NOT_FOUND and fromtimestamp_ms = ex_clock and ts = "JStr ''soon''"
       and dt = ex_date]
  by (simp add: ex_tree_def ex_clock_def ex_strftime) (simp add: ex_date_def)

text \<open>
  C3 as stated says that every timestamp that is converted gives an MM/DD/YYYY string. The
  timestamp -46388678400000 is the first day of the year 500, and the string returned has
  nine characters.
\<close>

theorem format_timestamp_year_500_counterexample:
  "py_truthy (JInt (- 46388678400000)) \<and>
   ex_clock_500 (JInt (- 46388678400000)) = Some ex_date_500 \<and>
   format_timestamp ex_clock_500 (JInt (- 46388678400000)) = Inr ''01/01/500'' \<and>
   \<not> is_mm_dd_yyyy ''01/01/500''"
  by (simp add: format_timestamp_def ex_clock_500_def ex_strftime_500 is_mm_dd_yyyy_def)

section \<open>Sorting\<close>

lemma py_sorted_sorted: "sorted (map key (py_sorted key xs))"
  by (simp add: py_sorted_def)

lemma py_sorted_mset: "mset (py_sorted key xs) = mset xs"
  by (simp add: py_sorted_def)

lemma py_sorted_stable:
  "filter (\<lambda>x. key x = k) (py_sorted key xs) = filter (\<lambda>x. key x = k) xs"
  by (simp add: py_sorted_def sort_key_stable)

lemma py_sorted_stably_sorted: "stably_sorted key xs (py_sorted key xs)"
  by (simp add: stably_sorted_def py_sorted_sorted py_sorted_mset py_sorted_stable)

lemma py_sorted_key_order:
  assumes "i < length (py_sorted key xs)" "j < length (py_sorted key xs)"
    and "key (py_sorted key xs ! i) < key (py_sorted key xs ! j)"
  shows "i < j"
proof (rule ccontr)
  assume "\<not> i < j"
  then have "j \<le> i" by simp
  with assms(1) have "map key (py_sorted key xs) ! j \<le> map key (py_sorted key xs) ! i"
    using py_sorted_sorted [of key xs] by (simp add: sorted_iff_nth_mono del: nth_map)
  with assms show False by simp
qed

lemma py_sorted_missing_first:
  "missing_first ord xs (py_sorted (\<lambda>x. get_or (ord x) 0) xs)"
proof -
  let ?key = "\<lambda>x. get_or (ord x) 0"
  let ?ys = "py_sorted ?key xs"
  have "i < j" if "i < length ?ys" "j < length ?ys" "ord (?ys ! i) = None"
    "ord (?ys ! j) = Some k" "0 < k" for i j k
  proof -
    from that have "?key (?ys ! i) < ?key (?ys ! j)" by (simp add: get_or_def)
    with that(1,2) show ?thesis by (rule py_sorted_key_order)
  qed
  moreover have "filter (\<lambda>x. order_key (ord x) = 0) ?ys = filter (\<lambda>x. order_key (ord x) = 0) xs"
    unfolding order_key_def by (rule py_sorted_stable)
  ultimately show ?thesis
    unfolding missing_first_def by (simp add: py_sorted_mset)
qed

lemma ex_get_sections: "get_sections ex_inspection = [ex_section_b, ex_section_a, ex_section_c]"
  by (simp add: get_sections_def py_sorted_def get_or_def ex_section_a_def ex_section_b_def
      ex_section_c_def ex_inspection_def)

lemma ex_get_line_items:
  "get_line_items_for_section ex_section_a = [ex_item_b, ex_item_a]"
  "get_line_items_for_section ex_section_b = []"
  "get_line_items_for_section ex_section_c = []"
  by (simp_all add: get_line_items_for_section_def py_sorted_def get_or_def ex_section_a_def
      ex_section_b_def ex_section_c_def ex_item_a_def ex_item_b_def)

lemma ex_get_comments:
  "get_comments_for_line_item ex_item_a = [ex_comment_b, ex_comment_a]"
  "get_comments_for_line_item ex_item_b = []"
  by (simp_all add: get_comments_for_line_item_def py_sorted_def get_or_def ex_item_a_def
      ex_item_b_def ex_comment_a_def ex_comment_b_def)

text \<open>
  C7. The sections, the line items of a section and the comments of a line item are
  returned in stable ascending order of their order key: the keys ascend, nothing is lost
  or added, and for every key value the entities having it stand in their original
  relative order.
\<close>

theorem sorting_stable:
  "stably_sorted (\<lambda>x. order_key (s_order x)) (get_or (sections insp) []) (get_sections insp) \<and>
   stably_sorted (\<lambda>x. order_key (li_order x)) (get_or (s_lineItems sec) [])
     (get_line_items_for_section sec) \<and>
   stably_sorted (\<lambda>x. order_key (c_order x)) (get_or (li_comments item) [])
     (get_comments_for_line_item item)"
  by (simp add: get_sections_def get_line_items_for_section_def get_comments_for_line_item_def
      order_key_def py_sorted_stably_sorted)

theorem sorting_stable_witness:
  "get_sections ex_inspection = [ex_section_b, ex_section_a, ex_section_c] \<and>
   filter (\<lambda>x. order_key (s_order x) = 1) (get_or (sections ex_inspection) []) =
     [ex_section_a, ex_section_c] \<and>
   filter (\<lambda>x. order_key (s_order x) = 1) (get_sections ex_inspection) =
     [ex_section_a, ex_section_c]"
  using sorting_stable [of ex_inspection ex_section_a ex_item_a]
  by (simp add: stably_sorted_def ex_get_sections)
     (simp add: order_key_def get_or_def ex_inspection_def ex_section_a_def ex_section_b_def
      ex_section_c_def)

text \<open>
  C10. In each of the three sorts an entity whose order key is missing sorts with key 0:
  it stands before every sibling whose order value is positive, the siblings of key 0
  keep their original relative order, and no entity is rejected.
\<close>

theorem missing_order_sorts_as_zero:
  "missing_first s_order (get_or (sections insp) []) (get_sections insp) \<and>
   missing_first li_order (get_or (s_lineItems sec) []) (get_line_items_for_section sec) \<and>
   missing_first c_order (get_or (li_comments item) []) (get_comments_for_line_item item)"
  by (simp add: get_sections_def get_line_items_for_section_def get_comments_for_line_item_def
      py_sorted_missing_first)

theorem missing_order_sorts_as_zero_witness:
  "(0::nat) < length (get_sections ex_inspection) \<and> 1 < length (get_sections ex_inspection) \<and>
   s_order (get_sections ex_inspection ! 0) = None \<and>
   s_order (get_sections ex_inspection ! 1) = Some 1 \<and> (0::int) < 1 \<and> (0::nat) < 1 \<and>
   get_sections ex_inspection ! 0 = ex_section_b"
  using missing_order_sorts_as_zero [of ex_inspection ex_section_a ex_item_a]
  by (simp add: missing_first_def ex_get_sections)
     (simp add: ex_section_a_def ex_section_b_def)

section \<open>Media collector and summary aggregator\<close>

lemma foldl_snoc_map: "foldl (\<lambda>acc x. acc @ [f x]) acc xs = acc @ map f xs"
  by (induction xs arbitrary: acc) simp_all

lemma media_of_comment_eq:
  "media_of_comment sec item acc c =
     (fst acc @ map (with_context sec item c) (get_photos_for_comment c),
      snd acc @ map (with_context sec item c) (get_videos_for_comment c))"
  by (simp add: media_of_comment_def Let_def foldl_snoc_map)

lemma foldl_media_of_comment:
  "foldl (media_of_comment sec item) acc cs =
     (fst acc @ concat (map (\<lambda>c. map (with_context sec item c) (get_photos_for_comment c)) cs),
      snd acc @ concat (map (\<lambda>c. map (with_context sec item c) (get_videos_for_comment c)) cs))"
  by (induction cs arbitrary: acc) (simp_all add: media_of_comment_eq)

lemma media_of_line_item_eq:
  "media_of_line_item sec acc item =
     (fst acc @ photos_of_line_item sec item, snd acc @ videos_of_line_item sec item)"
  by (simp add: media_of_line_item_def foldl_media_of_comment photos_of_line_item_def
      videos_of_line_item_def)

lemma foldl_media_of_line_item:
  "foldl (media_of_line_item sec) acc items =
     (fst acc @ concat (map (photos_of_line_item sec) items),
      snd acc @ concat (map (videos_of_line_item sec) items))"
  by (induction items arbitrary: acc) (simp_all add: media_of_line_item_eq)

lemma media_of_section_eq:
  "media_of_section acc sec = (fst acc @ photos_of_section sec, snd acc @ videos_of_section sec)"
  by (simp add: media_of_section_def foldl_media_of_line_item photos_of_section_def
      videos_of_section_def)

lemma foldl_media_of_section:
  "foldl media_of_section acc secs =
     (fst acc @ concat (map photos_of_section secs),
      snd acc @ concat (map videos_of_section secs))"
  by (induction secs arbitrary: acc) (simp_all add: media_of_section_eq)

lemma get_all_media_eq:
  "get_all_media insp =
     (concat (map photos_of_section (get_sections insp)),
      concat (map videos_of_section (get_sections insp)))"
  by (simp add: get_all_media_def foldl_media_of_section)

lemma foldl_stats_of_comment:
  "foldl stats_of_comment st cs =
     st\<lparr>total_photos := total_photos st + (\<Sum>c\<leftarrow>cs. length (get_photos_for_comment c)),
        total_videos := total_videos st + (\<Sum>c\<leftarrow>cs. length (get_videos_for_comment c))\<rparr>"
  by (induction cs arbitrary: st) (simp_all add: stats_of_comment_def)

lemma tally_status_media [simp]:
  "total_photos (tally_status st status) = total_photos st"
  "total_videos (tally_status st status) = total_videos st"
  by (simp_all add: tally_status_def)

lemma length_photos_of_line_item:
  "length (photos_of_line_item sec item) =
     (\<Sum>c\<leftarrow>get_comments_for_line_item item. length (get_photos_for_comment c))"
  by (simp add: photos_of_line_item_def length_concat comp_def)

lemma length_videos_of_line_item:
  "length (videos_of_line_item sec item) =
     (\<Sum>c\<leftarrow>get_comments_for_line_item item. length (get_videos_for_comment c))"
  by (simp add: videos_of_line_item_def length_concat comp_def)

lemma stats_of_line_item_media:
  "total_photos (stats_of_line_item st item) =
     total_photos st + length (photos_of_line_item sec item)"
  "total_videos (stats_of_line_item st item) =
     total_videos st + length (videos_of_line_item sec item)"
  by (simp_all add: stats_of_line_item_def foldl_stats_of_comment length_photos_of_line_item
      length_videos_of_line_item)

lemma foldl_stats_of_line_item_media:
  "total_photos (foldl stats_of_line_item st items) =
     total_photos st + length (concat (map (photos_of_line_item sec) items))"
  "total_videos (foldl stats_of_line_item st items) =
     total_videos st + length (concat (map (videos_of_line_item sec) items))"
  by (induction items arbitrary: st) (simp_all add: stats_of_line_item_media [of _ _ sec])

lemma stats_of_section_media:
  "total_photos (stats_of_section st sec) = total_photos st + length (photos_of_section sec)"
  "total_videos (stats_of_section st sec) = total_videos st + length (videos_of_section sec)"
  by (simp_all add: stats_of_section_def Let_def foldl_stats_of_line_item_media [of _ _ sec]
      photos_of_section_def videos_of_section_def)

lemma foldl_stats_of_section_media:
  "total_photos (foldl stats_of_section st secs) =
     total_photos st + length (concat (map photos_of_section secs))"
  "total_videos (foldl stats_of_section st secs) =
     total_videos st + length (concat (map videos_of_section secs))"
  by (induction secs arbitrary: st) (simp_all add: stats_of_section_media)

lemma map_of_dict_set: "map_of (dict_set m key v) = (map_of m)(key \<mapsto> v)"
  by (induction m key v rule: dict_set.induct) auto

lemma map_of_with_context:
  "map_of (with_context sec item c m) =
     (map_of m)(''section_name'' \<mapsto> JStr (get_or (s_name sec) ''Unknown''),
                ''line_item_name'' \<mapsto> JStr (get_or (li_name item) ''Unknown''),
                ''comment_text'' \<mapsto> JStr (take 100 (get_or (c_text c) [])))"
  by (simp add: with_context_def map_of_dict_set py_slice_def)

lemma ex_media:
  "get_all_media ex_inspection =
    ([[(''url'', JStr ''p2''), (''section_name'', JStr ''Structural''),
       (''line_item_name'', JStr ''Foundations''), (''comment_text'', JStr [])],
      [(''url'', JStr ''p3''), (''section_name'', JStr ''Structural''),
       (''line_item_name'', JStr ''Foundations''), (''comment_text'', JStr [])],
      [(''url'', JStr ''p1''), (''section_name'', JStr ''Structural''),
       (''line_item_name'', JStr ''Foundations''), (''comment_text'', JStr ''Crack in slab'')]],
     [[(''url'', JStr ''v1''), (''section_name'', JStr ''Structural''),
       (''line_item_name'', JStr ''Foundations''), (''comment_text'', JStr [])]])"
  by (simp add: get_all_media_def media_of_section_def media_of_line_item_def
      media_of_comment_def ex_get_sections ex_get_line_items ex_get_comments)
     (simp add: get_photos_for_comment_def get_videos_for_comment_def with_context_def get_or_def
      py_slice_def ex_tree_defs)

lemma ex_stats:
  "get_summary_stats ex_inspection =
     \<lparr>total_sections = 3, total_line_items = 2, inspected = 0, not_inspected = 0,
      not_present = 0, deficient = 1, total_photos = 3, total_videos = 1\<rparr>"
  by (simp add: get_summary_stats_def stats_of_section_def stats_of_line_item_def
      ex_get_sections ex_get_line_items ex_get_comments)
     (simp add: stats_of_comment_def tally_status_def get_photos_for_comment_def
      get_videos_for_comment_def get_or_def ex_tree_defs)

text \<open>
  C6. The number of photos that \<^verbatim>\<open>get_all_media\<close> returns equals \<^verbatim>\<open>total_photos\<close> of
  \<^verbatim>\<open>get_summary_stats\<close>, and the number of videos equals \<^verbatim>\<open>total_videos\<close>, for every
  well-formed inspection tree.
\<close>

theorem media_counts_agree:
  "length (fst (get_all_media insp)) = total_photos (get_summary_stats insp) \<and>
   length (snd (get_all_media insp)) = total_videos (get_summary_stats insp)"
  by (simp add: get_all_media_eq get_summary_stats_def Let_def foldl_stats_of_section_media)

theorem media_counts_agree_witness:
  "length (fst (get_all_media ex_inspection)) = 3 \<and>
   total_photos (get_summary_stats ex_inspection) = 3 \<and>
   length (snd (get_all_media ex_inspection)) = 1 \<and>
   total_videos (get_summary_stats ex_inspection) = 1"
  using media_counts_agree [of ex_inspection]
  by (simp add: ex_media ex_stats)

text \<open>
  C8. The photos (and the videos) that \<^verbatim>\<open>get_all_media\<close> returns are, in this order, the
  photos of every comment of every line item of every section, the three levels taken in
  their sorted order; so the output is a function of the tree and of the sort order alone.
  Each entry is the original record with the keys \<^verbatim>\<open>section_name\<close> (the section's name),
  \<^verbatim>\<open>line_item_name\<close> (the line item's name) and \<^verbatim>\<open>comment_text\<close> (the first 100
  characters of the comment's text) set, every other key as in the original.
\<close>

theorem get_all_media_entries:
  "fst (get_all_media insp) =
     [with_context sec item c photo.
        sec \<leftarrow> get_sections insp, item \<leftarrow> get_line_items_for_section sec,
        c \<leftarrow> get_comments_for_line_item item, photo \<leftarrow> get_photos_for_comment c] \<and>
   snd (get_all_media insp) =
     [with_context sec item c video.
        sec \<leftarrow> get_sections insp, item \<leftarrow> get_line_items_for_section sec,
        c \<leftarrow> get_comments_for_line_item item, video \<leftarrow> get_videos_for_comment c] \<and>
   map_of (with_context sec item c m) =
     (map_of m)(''section_name'' \<mapsto> JStr (get_or (s_name sec) ''Unknown''),
                ''line_item_name'' \<mapsto> JStr (get_or (li_name item) ''Unknown''),
                ''comment_text'' \<mapsto> JStr (take 100 (get_or (c_text c) []))) \<and>
   length (take 100 (get_or (c_text c) [])) \<le> 100"
  by (simp add: get_all_media_eq photos_of_section_def [abs_def] videos_of_section_def [abs_def]
      photos_of_line_item_def [abs_def] videos_of_line_item_def [abs_def] map_of_with_context)

theorem get_all_media_entries_witness:
  "fst (get_all_media ex_inspection) =
     [[(''url'', JStr ''p2''), (''section_name'', JStr ''Structural''),
       (''line_item_name'', JStr ''Foundations''), (''comment_text'', JStr [])],
      [(''url'', JStr ''p3''), (''section_name'', JStr ''Structural''),
       (''line_item_name'', JStr ''Foundations''), (''comment_text'', JStr [])],
      [(''url'', JStr ''p1''), (''section_name'', JStr ''Structural''),
       (''line_item_name'', JStr ''Foundations''), (''comment_text'', JStr ''Crack in slab'')]] \<and>
   map_of (with_context ex_section_a ex_item_a ex_comment_long [(''url'', JStr ''p1'')])
     ''comment_text'' = Some (JStr (replicate 100 CHR ''x'')) \<and>
   map_of (with_context ex_section_a ex_item_a ex_comment_long [(''url'', JStr ''p1'')])
     ''url'' = Some (JStr ''p1'')"
  using get_all_media_entries
    [of ex_inspection ex_section_a ex_item_a ex_comment_long "[(''url'', JStr ''p1'')]"]
  by (simp add: ex_media) (simp add: ex_comment_long_def get_or_def)

section \<open>Form fields\<close>

subsection \<open>Checkbox groups\<close>

lemma div4_step: "4 \<le> (n::nat) \<Longrightarrow> n div 4 = Suc ((n - 4) div 4)"
  by (simp add: le_div_geq)

lemma slices_shift:
  "map (\<lambda>k. py_slice names (i + 4 * k) (i + 4 * k + 4)) [0..<Suc m] =
   py_slice names i (i + 4) #
   map (\<lambda>k. py_slice names (i + 4 + 4 * k) (i + 4 + 4 * k + 4)) [0..<m]"
proof -
  have "[0..<Suc m] = 0 # map Suc [0..<m]"
    by (simp add: upt_conv_Cons map_Suc_upt del: upt_Suc)
  then show ?thesis
    by (simp add: comp_def add.assoc del: upt_Suc)
qed

lemma group_loop_eq:
  "group_loop names i groups =
     groups @ map (\<lambda>k. py_slice names (i + 4 * k) (i + 4 * k + 4)) [0..<(length names - i) div 4]"
proof (induction names i groups rule: group_loop.induct)
  case (1 names i groups)
  show ?case
  proof (cases "i < length names")
    case False
    then show ?thesis by (subst group_loop.simps) simp
  next
    case True
    let ?group = "py_slice names i (i + 4)"
    have len: "length ?group = min 4 (length names - i)"
      by (simp add: py_slice_def)
    show ?thesis
    proof (cases "4 \<le> length names - i")
      case full: True
      then have l4: "length ?group = 4" using len by simp
      have "length names - (i + 4) = length names - i - 4" by simp
      with full have d: "(length names - i) div 4 = Suc ((length names - (i + 4)) div 4)"
        by (simp only: div4_step)
      have "group_loop names i groups = group_loop names (i + 4) (groups @ [?group])"
        using True l4 by (subst group_loop.simps) (simp add: Let_def)
      also have "\<dots> = (groups @ [?group]) @
          map (\<lambda>k. py_slice names (i + 4 + 4 * k) (i + 4 + 4 * k + 4))
            [0..<(length names - (i + 4)) div 4]"
        using "1.IH" [OF True refl] l4 by simp
      also have "\<dots> = groups @
          map (\<lambda>k. py_slice names (i + 4 * k) (i + 4 * k + 4)) [0..<(length names - i) div 4]"
        unfolding d slices_shift by simp
      finally show ?thesis .
    next
      case short: False
      then have l4: "length ?group \<noteq> 4" using len by simp
      from short have z: "(length names - i) div 4 = 0" "(length names - (i + 4)) div 4 = 0"
        by simp_all
      have "group_loop names i groups = group_loop names (i + 4) groups"
        using True l4 by (subst group_loop.simps) (simp add: Let_def)
      also have "\<dots> = groups"
        using "1.IH" [OF True refl] l4 z by simp
      finally show ?thesis using z by simp
    qed
  qed
qed

lemma concat_slices:
  "4 * m \<le> length xs \<Longrightarrow>
   concat (map (\<lambda>k. py_slice xs (4 * k) (4 * k + 4)) [0..<m]) = take (4 * m) xs"
proof (induction m)
  case 0
  show ?case by simp
next
  case (Suc m)
  then have IH: "concat (map (\<lambda>k. py_slice xs (4 * k) (4 * k + 4)) [0..<m]) = take (4 * m) xs"
    by simp
  have "take (4 * Suc m) xs = take (4 * m + 4) xs" by (simp add: add.commute)
  also have "\<dots> = take (4 * m) xs @ take 4 (drop (4 * m) xs)" by (rule take_add)
  finally show ?case
    using IH by (simp add: py_slice_def)
qed

lemma get_checkbox_groups_eq:
  "by_page page_num = Some pf \<Longrightarrow>
   get_checkbox_groups by_page page_num =
     map (\<lambda>k. py_slice (map fe_name (checkboxes pf)) (4 * k) (4 * k + 4))
       [0..<length (checkboxes pf) div 4]"
  by (simp add: get_checkbox_groups_def group_loop_eq)

lemma ex_groups:
  "get_checkbox_groups (analyze_fields ex_doc) 2 = [[''I1'', ''NI1'', ''NP1'', ''D1'']]"
  by (simp add: get_checkbox_groups_def analyze_fields_def analyze_page_def ex_doc_def
      ex_checkbox_def ex_text_field_def group_loop.simps py_slice_def)

lemma ex_count: "get_checkbox_count_for_page (analyze_fields ex_doc) 2 = 5"
  by (simp add: get_checkbox_count_for_page_def analyze_fields_def analyze_page_def ex_doc_def
      ex_checkbox_def ex_text_field_def)

text \<open>
  C9. For every page \<^verbatim>\<open>get_checkbox_groups\<close> returns \<open>n div 4\<close> groups, \<open>n\<close> the number
  of checkboxes of the page (none for a page that the form does not have), each group of
  length 4; the groups are, in discovery order, consecutive runs of the page's checkbox
  names, and the last \<open>n mod 4\<close> names are in no group.
\<close>

theorem get_checkbox_groups_partition:
  "length (get_checkbox_groups by_page page_num) =
     get_checkbox_count_for_page by_page page_num div 4 \<and>
   (\<forall>g \<in> set (get_checkbox_groups by_page page_num). length g = 4) \<and>
   (by_page page_num = None \<longrightarrow> get_checkbox_groups by_page page_num = []) \<and>
   (\<forall>pf. by_page page_num = Some pf \<longrightarrow>
      get_checkbox_count_for_page by_page page_num = length (checkboxes pf) \<and>
      concat (get_checkbox_groups by_page page_num) =
        take (4 * (length (checkboxes pf) div 4)) (map fe_name (checkboxes pf)))"
proof (cases "by_page page_num")
  case None
  then show ?thesis
    by (simp add: get_checkbox_groups_def get_checkbox_count_for_page_def)
next
  case (Some pf)
  let ?names = "map fe_name (checkboxes pf)"
  let ?n = "length (checkboxes pf)"
  have cnt: "get_checkbox_count_for_page by_page page_num = ?n"
    using Some by (simp add: get_checkbox_count_for_page_def)
  have eq: "get_checkbox_groups by_page page_num =
      map (\<lambda>k. py_slice ?names (4 * k) (4 * k + 4)) [0..<?n div 4]"
    using Some by (rule get_checkbox_groups_eq)
  have "length (py_slice ?names (4 * k) (4 * k + 4)) = 4" if "k < ?n div 4" for k
  proof -
    from that have "4 * k + 4 \<le> ?n" by simp
    then show ?thesis by (simp add: py_slice_def)
  qed
  then have all4: "\<forall>g \<in> set (get_checkbox_groups by_page page_num). length g = 4"
    unfolding eq by auto
  have "4 * (?n div 4) \<le> length ?names" by simp
  then have "concat (get_checkbox_groups by_page page_num) = take (4 * (?n div 4)) ?names"
    unfolding eq by (rule concat_slices)
  with all4 cnt eq Some show ?thesis by simp
qed

theorem get_checkbox_groups_partition_witness:
  "analyze_fields ex_doc 2 = Some (analyze_page 2 (ex_doc ! 2)) \<and>
   get_checkbox_count_for_page (analyze_fields ex_doc) 2 = 5 \<and>
   get_checkbox_groups (analyze_fields ex_doc) 2 = [[''I1'', ''NI1'', ''NP1'', ''D1'']] \<and>
   [''I1'', ''NI1'', ''NP1'', ''D1''] \<in> set (get_checkbox_groups (analyze_fields ex_doc) 2) \<and>
   length (get_checkbox_groups (analyze_fields ex_doc) 2) = 5 div 4"
  using get_checkbox_groups_partition [of "analyze_fields ex_doc" 2]
  by (simp add: ex_groups ex_count) (simp add: analyze_fields_def ex_doc_def)

subsection \<open>Filling one checkbox group\<close>

lemma find_app: "find P (xs @ ys) = (case find P xs of None \<Rightarrow> find P ys | Some x \<Rightarrow> Some x)"
  by (induction xs) simp_all

lemma write_on_page_eq:
  "write_on_page match v vals ws =
     (case find match ws of
        None \<Rightarrow> None
      | Some w \<Rightarrow> Some (if update_raises w then vals else vals(field_name w := v),
                         \<not> update_raises w))"
  by (induction ws) simp_all

lemma write_in_pages_eq:
  "write_in_pages match v vals pages =
     (case find match (concat pages) of
        None \<Rightarrow> (vals, False)
      | Some w \<Rightarrow> (if update_raises w then vals else vals(field_name w := v),
                   \<not> update_raises w))"
proof (induction pages)
  case Nil
  show ?case by simp
next
  case (Cons p ps)
  show ?case
  proof (cases "find match p")
    case None
    with Cons show ?thesis by (simp add: write_on_page_eq find_app)
  next
    case (Some w)
    then show ?thesis by (simp add: write_on_page_eq find_app)
  qed
qed

lemma write_in_doc_eq:
  "write_in_doc match v doc =
     (case find match (concat (doc_pages doc)) of
        None \<Rightarrow> (doc, False)
      | Some w \<Rightarrow> if update_raises w then (doc, False)
                  else (doc\<lparr>doc_values := (doc_values doc)(field_name w := v)\<rparr>, True))"
  by (simp add: write_in_doc_def write_in_pages_eq split: option.splits)

lemma STATUS_TO_CHECKBOX_INDEX_selected:
  "STATUS_TO_CHECKBOX_INDEX
     (case status of None \<Rightarrow> ''I''
      | Some s \<Rightarrow> if s = [] \<or> STATUS_TO_CHECKBOX_INDEX s = None then ''I'' else s) =
   Some (selected_index status)"
  by (cases status) (auto simp: STATUS_TO_CHECKBOX_INDEX_def selected_index_def)

lemma fill_checkbox_for_status_eq:
  "fill_checkbox_for_status doc checkbox_group status =
     (if selected_index status \<ge> length checkbox_group then Inr (doc, 0)
      else (case write_in_doc (\<lambda>w. field_name w = checkbox_group ! selected_index status)
                   (BoolValue True) doc of
              (doc', ok) \<Rightarrow> Inr (doc', if ok then 1 else 0)))"
  unfolding fill_checkbox_for_status_def Let_def STATUS_TO_CHECKBOX_INDEX_selected
  by simp

lemma fill_checkbox_for_status_total:
  "\<exists>doc' n. fill_checkbox_for_status doc g status = Inr (doc', n) \<and> n \<le> 1"
  by (auto simp: fill_checkbox_for_status_eq split: prod.splits)

lemma ex_fill_D:
  "fill_checkbox_for_status ex_form [''I1'', ''NI1'', ''NP1'', ''D1''] (Some ''D'') =
     Inr (ex_form\<lparr>doc_values := (doc_values ex_form)(''D1'' := BoolValue True)\<rparr>, 1)"
  by (simp add: fill_checkbox_for_status_eq write_in_doc_eq selected_index_def ex_form_def
      ex_form_pages_def ex_checkbox_def ex_text_field_def)

lemma ex_fill_short:
  "fill_checkbox_for_status ex_form [''I1'', ''NI1''] (Some ''NP'') = Inr (ex_form, 0)"
  by (simp add: fill_checkbox_for_status_eq selected_index_def)

text \<open>
  C4, as the code has it. \<^verbatim>\<open>fill_checkbox_for_status\<close> never raises and leaves the
  pages of the form as they are. An absent or unrecognized status selects index 0 (I).
  When the selected index is out of range for the group, nothing is marked and 0 is
  returned. Otherwise the widget sought is the first one of the form, pages in order,
  whose name is the group's field at that index: when the form has none, or rejects the
  write to it, nothing is marked and 0 is returned; else that one field is marked true,
  all other group members are left as they were (unmarked ones stay unmarked), and 1 is
  returned.
\<close>

theorem fill_checkbox_for_status_marks:
  "\<exists>doc' n. fill_checkbox_for_status doc checkbox_group status = Inr (doc', n) \<and>
     doc_pages doc' = doc_pages doc \<and>
     (length checkbox_group \<le> selected_index status \<longrightarrow> doc' = doc \<and> n = 0) \<and>
     (selected_index status < length checkbox_group \<longrightarrow>
        (case find (\<lambda>w. field_name w = checkbox_group ! selected_index status)
                (concat (doc_pages doc)) of
           None \<Rightarrow> doc' = doc \<and> n = 0
         | Some w \<Rightarrow>
             if update_raises w then doc' = doc \<and> n = 0
             else n = 1 \<and>
                  doc_values doc' (checkbox_group ! selected_index status) = BoolValue True \<and>
                  (\<forall>m \<in> set checkbox_group.
                     m \<noteq> checkbox_group ! selected_index status \<longrightarrow>
                     doc_values doc' m = doc_values doc m)))"
proof (cases "length checkbox_group \<le> selected_index status")
  case True
  then show ?thesis by (simp add: fill_checkbox_for_status_eq)
next
  case False
  let ?name = "checkbox_group ! selected_index status"
  show ?thesis
  proof (cases "find (\<lambda>w. field_name w = ?name) (concat (doc_pages doc))")
    case None
    with False show ?thesis
      by (simp add: fill_checkbox_for_status_eq write_in_doc_eq)
  next
    case (Some w)
    then have "field_name w = ?name"
      by (auto simp: find_Some_iff)
    with False Some show ?thesis
      by (simp add: fill_checkbox_for_status_eq write_in_doc_eq)
  qed
qed

theorem fill_checkbox_for_status_marks_witness:
  "selected_index (Some ''D'') < length [''I1'', ''NI1'', ''NP1'', ''D1''] \<and>
   find (\<lambda>w. field_name w = ''D1'') (concat (doc_pages ex_form)) = Some (ex_checkbox ''D1'') \<and>
   \<not> update_raises (ex_checkbox ''D1'') \<and>
   ''NP1'' \<in> set [''I1'', ''NI1'', ''NP1'', ''D1''] \<and>
   fill_checkbox_for_status ex_form [''I1'', ''NI1'', ''NP1'', ''D1''] (Some ''D'') =
     Inr (ex_form\<lparr>doc_values := (doc_values ex_form)(''D1'' := BoolValue True)\<rparr>, 1) \<and>
   doc_values (ex_form\<lparr>doc_values := (doc_values ex_form)(''D1'' := BoolValue True)\<rparr>) ''NP1'' =
     doc_values ex_form ''NP1'' \<and>
   length [''I1'', ''NI1''] \<le> selected_index (Some ''NP'') \<and>
   fill_checkbox_for_status ex_form [''I1'', ''NI1''] (Some ''NP'') = Inr (ex_form, 0)"
  using fill_checkbox_for_status_marks [of ex_form "[''I1'', ''NI1'', ''NP1'', ''D1'']" "Some ''D''"]
    fill_checkbox_for_status_marks [of ex_form "[''I1'', ''NI1'']" "Some ''NP''"]
  by (simp add: ex_fill_D ex_fill_short selected_index_def)
     (simp add: ex_form_def ex_form_pages_def ex_checkbox_def ex_text_field_def)

text \<open>
  C4 as stated says that a selected index in range always marks the field and returns 1.
  With the four-field group a, b, c, d and status D the index 3 is in range, but the form
  has no widget named d: nothing is marked and 0 is returned.
\<close>

theorem fill_checkbox_for_status_absent_counterexample:
  "selected_index (Some ''D'') < length [''a'', ''b'', ''c'', ''d''] \<and>
   fill_checkbox_for_status ex_form_a [''a'', ''b'', ''c'', ''d''] (Some ''D'') =
     Inr (ex_form_a, 0)"
  by (simp add: fill_checkbox_for_status_def STATUS_TO_CHECKBOX_INDEX_def write_in_doc_def
      ex_form_a_def ex_checkbox_def selected_index_def)

subsection \<open>Paginator\<close>

lemma foldl_snoc_items: "foldl (\<lambda>acc x. acc @ [f x]) acc xs = acc @ map f xs"
  by (induction xs arbitrary: acc) simp_all

lemma all_line_items_eq:
  "all_line_items insp =
     [flatten_item sec item. sec \<leftarrow> get_sections insp, item \<leftarrow> get_line_items_for_section sec]"
proof -
  have outer: "foldl (\<lambda>acc sec. acc @ map (flatten_item sec) (get_line_items_for_section sec))
      acc secs =
      acc @ concat (map (\<lambda>sec. map (flatten_item sec) (get_line_items_for_section sec)) secs)"
    for acc secs
    by (induction secs arbitrary: acc) simp_all
  show ?thesis
    by (simp add: all_line_items_def foldl_snoc_items outer)
qed

lemma page_loop_place_pairs:
  "page_loop text_flds items 0 i groups (doc, filled, processed) =
     place_pairs text_flds i (zip groups (drop i items)) (doc, filled, processed)"
proof (induction groups arbitrary: i doc filled processed)
  case Nil
  show ?case by simp
next
  case (Cons g rest)
  show ?case
  proof (cases "i < length items")
    case False
    then show ?thesis by simp
  next
    case True
    then have d: "drop i items = items ! i # drop (Suc i) items"
      by (simp add: Cons_nth_drop_Suc)
    from True show ?thesis
      unfolding d by (simp add: Cons.IH Let_def split: sum.splits)
  qed
qed

lemma zip_drop_Cons:
  "i < length G \<Longrightarrow> i < length sl \<Longrightarrow>
   zip (drop i G) (drop i sl) = (G ! i, sl ! i) # zip (drop (Suc i) G) (drop (Suc i) sl)"
  by (simp add: Cons_nth_drop_Suc [symmetric])

lemma place_pairs_run:
  assumes sl: "\<And>k. k < length sl \<Longrightarrow> sl ! k = items ! (s + k)"
  shows "place_pairs (get_text_fields_for_page by_page p) i (zip (drop i G) (drop i sl))
           (doc, f, n) =
         run_placements by_page items
           (map (\<lambda>k. (p, k, G ! k, s + k)) [i..<min (length G) (length sl)]) (doc, f, n)"
proof (induction "min (length G) (length sl) - i" arbitrary: i doc f n)
  case 0
  then have "length G \<le> i \<or> length sl \<le> i" by auto
  then show ?case by auto
next
  case (Suc m)
  then have i: "i < length G" "i < length sl" by simp_all
  then have u: "[i..<min (length G) (length sl)] = i # [Suc i..<min (length G) (length sl)]"
    by (simp add: upt_conv_Cons)
  from Suc.hyps(2) have m: "m = min (length G) (length sl) - Suc i" by simp
  show ?case
    unfolding zip_drop_Cons [OF i] u
    by (simp add: Suc.hyps(1) [OF m] sl [OF i(2)] split: sum.splits)
qed

lemma fill_line_items_on_page_run:
  "fill_line_items_on_page doc by_page page_idx (py_slice items start_idx end_idx) 0 =
     run_placements by_page items (row_placements by_page items (page_idx, start_idx, end_idx))
       (doc, 0, 0)"
proof -
  have "py_slice items start_idx end_idx ! k = items ! (start_idx + k)"
    if "k < length (py_slice items start_idx end_idx)" for k
    using that by (auto simp: py_slice_def)
  from place_pairs_run [of "py_slice items start_idx end_idx" items start_idx by_page page_idx 0
      "get_checkbox_groups by_page page_idx" doc 0 0, OF this]
  show ?thesis
    by (simp add: fill_line_items_on_page_def page_loop_place_pairs row_placements_def)
qed

lemma run_placements_total:
  "\<exists>doc' c. c \<le> length pl \<and>
     (\<forall>f n. run_placements by_page items pl (doc, f, n) = Inr (doc', f + c, n + length pl))"
proof (induction pl arbitrary: doc)
  case Nil
  show ?case by simp
next
  case (Cons a pl)
  obtain p k g idx where a: "a = (p, k, g, idx)" by (cases a) auto
  obtain doc1 c1 where
    f: "fill_checkbox_for_status doc g (fl_inspectionStatus (items ! idx)) = Inr (doc1, c1)"
    and c1: "c1 \<le> 1"
    using fill_checkbox_for_status_total by blast
  let ?doc2 = "if k < length (get_text_fields_for_page by_page p)
     then fill_slot_text doc1 (get_text_fields_for_page by_page p ! k) (items ! idx) else doc1"
  from Cons.IH [of ?doc2] obtain doc' c where c: "c \<le> length pl"
    and r: "\<And>f n. run_placements by_page items pl (?doc2, f, n) =
         Inr (doc', f + c, n + length pl)"
    by blast
  have "run_placements by_page items (a # pl) (doc, f', n') =
      Inr (doc', f' + (c1 + c), n' + length (a # pl))" for f' n'
    unfolding a using r [of "f' + c1" "n' + 1"] by (simp add: f add.assoc)
  moreover from c c1 have "c1 + c \<le> length (a # pl)" by simp
  ultimately show ?case by blast
qed

lemma fill_mapped_page_run:
  "fill_mapped_page by_page items (doc, tf, tp) (page_idx, start_idx, end_idx) =
     run_placements by_page items (row_placements by_page items (page_idx, start_idx, end_idx))
       (doc, tf, tp)"
proof (cases "py_slice items start_idx end_idx = []")
  case True
  then show ?thesis
    by (simp add: fill_mapped_page_def row_placements_def)
next
  case False
  obtain doc' c where
    r: "\<And>f n. run_placements by_page items
           (row_placements by_page items (page_idx, start_idx, end_idx)) (doc, f, n) =
         Inr (doc', f + c,
              n + length (row_placements by_page items (page_idx, start_idx, end_idx)))"
    using run_placements_total by blast
  from False show ?thesis
    by (simp add: fill_mapped_page_def Let_def fill_line_items_on_page_run r)
qed

lemma run_placements_append:
  "run_placements by_page items (xs @ ys) (doc, f, n) =
     (case run_placements by_page items xs (doc, f, n) of
        Inl e \<Rightarrow> Inl e
      | Inr st \<Rightarrow> run_placements by_page items ys st)"
proof -
  obtain doc' c where
    "\<And>f n. run_placements by_page items xs (doc, f, n) = Inr (doc', f + c, n + length xs)"
    using run_placements_total by blast
  then have x: "run_placements by_page items xs (doc, f, n) = Inr (doc', f + c, n + length xs)"
    by simp
  have "run_placements by_page items (xs @ ys) (doc0, f0, n0) =
      (case run_placements by_page items xs (doc0, f0, n0) of
         Inl e \<Rightarrow> Inl e
       | Inr st \<Rightarrow> run_placements by_page items ys st)" for doc0 f0 n0
  proof (induction xs arbitrary: doc0 f0 n0)
    case Nil
    show ?case by simp
  next
    case (Cons a xs)
    obtain p k g idx where a: "a = (p, k, g, idx)" by (cases a) auto
    show ?case
      unfolding a by (simp add: Cons.IH split: sum.splits)
  qed
  then show ?thesis .
qed

lemma mapping_loop_run:
  "mapping_loop by_page items ms (doc, tf, tp) =
     run_placements by_page items (concat (map (row_placements by_page items) ms)) (doc, tf, tp)"
proof (induction ms arbitrary: doc tf tp)
  case Nil
  show ?case by simp
next
  case (Cons m ms)
  obtain page_idx start_idx end_idx where m: "m = (page_idx, start_idx, end_idx)"
    by (cases m) auto
  show ?case
    unfolding m
    by (simp add: fill_mapped_page_run run_placements_append Cons.IH split: sum.splits)
qed

lemma fill_inspection_checkboxes_run:
  "fill_inspection_checkboxes doc by_page insp =
     run_placements by_page (all_line_items insp)
       (table_placements by_page (all_line_items insp)) (doc, 0, 0)"
  by (simp add: fill_inspection_checkboxes_def mapping_loop_run table_placements_def
      page_mappings_def)

lemma row_placements_in_range:
  assumes "(p, k, g, idx) \<in> set (row_placements by_page items (page_idx, start_idx, end_idx))"
  shows "p = page_idx \<and> idx = start_idx + k \<and> idx < end_idx \<and> idx < length items \<and>
         k < length (get_checkbox_groups by_page p) \<and> g = get_checkbox_groups by_page p ! k"
  using assms by (auto simp: row_placements_def py_slice_def)

lemma table_placements_in_range:
  assumes "(p, k, g, idx) \<in> set (table_placements by_page items)"
  shows "idx < length items \<and> k < length (get_checkbox_groups by_page p) \<and>
         g = get_checkbox_groups by_page p ! k \<and>
         (p = 2 \<and> idx = k \<and> idx < 12 \<or> p = 3 \<and> idx = 12 + k \<and> idx < 22 \<or>
          p = 4 \<and> idx = 22 + k \<and> idx < 34 \<or> p = 5 \<and> idx = 34 + k \<and> idx < 41)"
proof -
  from assms consider
      "(p, k, g, idx) \<in> set (row_placements by_page items (2, 0, 12))"
    | "(p, k, g, idx) \<in> set (row_placements by_page items (3, 12, 22))"
    | "(p, k, g, idx) \<in> set (row_placements by_page items (4, 22, 34))"
    | "(p, k, g, idx) \<in> set (row_placements by_page items (5, 34, 41))"
    by (auto simp: table_placements_def)
  then show ?thesis
  proof cases
    case 1
    from row_placements_in_range [OF this] show ?thesis by auto
  next
    case 2
    from row_placements_in_range [OF this] show ?thesis by auto
  next
    case 3
    from row_placements_in_range [OF this] show ?thesis by auto
  next
    case 4
    from row_placements_in_range [OF this] show ?thesis by auto
  qed
qed

lemma ex_all_line_items:
  "all_line_items ex_inspection =
     [flatten_item ex_section_a ex_item_b, flatten_item ex_section_a ex_item_a]"
  by (simp add: all_line_items_eq ex_get_sections ex_get_line_items)

lemma ex_form_groups:
  "get_checkbox_groups (analyze_fields ex_form_pages) 2 =
     [[''I1'', ''NI1'', ''NP1'', ''D1''], [''I2'', ''NI2'', ''NP2'', ''D2'']]"
  "get_checkbox_groups (analyze_fields ex_form_pages) 3 = []"
  "get_checkbox_groups (analyze_fields ex_form_pages) 4 = []"
  "get_checkbox_groups (analyze_fields ex_form_pages) 5 = []"
  "get_text_fields_for_page (analyze_fields ex_form_pages) 2 = [''T1'', ''T2'']"
  by (simp_all add: get_checkbox_groups_def get_text_fields_for_page_def analyze_fields_def
      analyze_page_def ex_form_pages_def ex_checkbox_def ex_text_field_def group_loop.simps
      py_slice_def)

lemma ex_form_find:
  "find (\<lambda>w. field_name w = ''I1'') (concat ex_form_pages) = Some (ex_checkbox ''I1'')"
  "find (\<lambda>w. field_name w = ''D2'') (concat ex_form_pages) = Some (ex_checkbox ''D2'')"
  "find (\<lambda>w. field_name w = ''T2'' \<and> field_type w = 7) (concat ex_form_pages) =
     Some (ex_text_field ''T2'')"
  by (simp_all add: ex_form_pages_def ex_checkbox_def ex_text_field_def)

lemma ex_table_placements:
  "table_placements (analyze_fields ex_form_pages) (all_line_items ex_inspection) =
     [(2, 0, [''I1'', ''NI1'', ''NP1'', ''D1''], 0), (2, 1, [''I2'', ''NI2'', ''NP2'', ''D2''], 1)]"
  by (simp add: table_placements_def row_placements_def ex_form_groups ex_all_line_items
      py_slice_def)

text \<open>
  C5. \<^verbatim>\<open>_fill_inspection_checkboxes\<close> carries out, in this order, the placements of the
  table page 2 with items [0,12), page 3 with [12,22), page 4 with [22,34), page 5 with
  [34,41), the offsets counting in the flattened sequence of all line items (sections in
  sorted order, the line items of each in sorted order): on each page, slot by slot, the
  items of the page's range on the page's checkbox groups. It never raises, and it reports
  as many items as placements. Every placement puts on its page an item of that page's
  range: slot \<open>k\<close> of the page holds item \<open>start + k\<close>.
\<close>

theorem paginator_ranges:
  "fill_inspection_checkboxes doc by_page insp =
     run_placements by_page (all_line_items insp)
       (table_placements by_page (all_line_items insp)) (doc, 0, 0) \<and>
   all_line_items insp =
     [flatten_item sec item. sec \<leftarrow> get_sections insp, item \<leftarrow> get_line_items_for_section sec] \<and>
   (\<exists>doc' filled.
      fill_inspection_checkboxes doc by_page insp =
        Inr (doc', filled, length (table_placements by_page (all_line_items insp))) \<and>
      filled \<le> length (table_placements by_page (all_line_items insp))) \<and>
   (\<forall>(page_idx, k, g, idx) \<in> set (table_placements by_page (all_line_items insp)).
      idx < length (all_line_items insp) \<and>
      k < length (get_checkbox_groups by_page page_idx) \<and>
      g = get_checkbox_groups by_page page_idx ! k \<and>
      (page_idx = 2 \<and> idx = k \<and> idx < 12 \<or> page_idx = 3 \<and> idx = 12 + k \<and> idx < 22 \<or>
       page_idx = 4 \<and> idx = 22 + k \<and> idx < 34 \<or> page_idx = 5 \<and> idx = 34 + k \<and> idx < 41))"
proof -
  let ?items = "all_line_items insp"
  let ?pl = "table_placements by_page ?items"
  obtain doc' c where c: "c \<le> length ?pl"
    and r: "\<And>f n. run_placements by_page ?items ?pl (doc, f, n) = Inr (doc', f + c, n + length ?pl)"
    using run_placements_total by blast
  from r [of 0 0] c
  have 3: "\<exists>doc' filled. fill_inspection_checkboxes doc by_page insp = Inr (doc', filled, length ?pl) \<and>
      filled \<le> length ?pl"
    by (simp add: fill_inspection_checkboxes_run)
  have 4: "\<forall>(page_idx, k, g, idx) \<in> set ?pl.
      idx < length ?items \<and> k < length (get_checkbox_groups by_page page_idx) \<and>
      g = get_checkbox_groups by_page page_idx ! k \<and>
      (page_idx = 2 \<and> idx = k \<and> idx < 12 \<or> page_idx = 3 \<and> idx = 12 + k \<and> idx < 22 \<or>
       page_idx = 4 \<and> idx = 22 + k \<and> idx < 34 \<or> page_idx = 5 \<and> idx = 34 + k \<and> idx < 41)"
    using table_placements_in_range [of _ _ _ _ by_page ?items] by blast
  show ?thesis
    using fill_inspection_checkboxes_run [of doc by_page insp] all_line_items_eq [of insp] 3 4
    by blast
qed

theorem paginator_ranges_witness:
  "(2, 1, [''I2'', ''NI2'', ''NP2'', ''D2''], 1) \<in>
     set (table_placements (analyze_fields ex_form_pages) (all_line_items ex_inspection)) \<and>
   table_placements (analyze_fields ex_form_pages) (all_line_items ex_inspection) =
     [(2, 0, [''I1'', ''NI1'', ''NP1'', ''D1''], 0), (2, 1, [''I2'', ''NI2'', ''NP2'', ''D2''], 1)] \<and>
   all_line_items ex_inspection ! 1 = flatten_item ex_section_a ex_item_a \<and>
   fill_inspection_checkboxes ex_form (analyze_fields ex_form_pages) ex_inspection =
     Inr (ex_form\<lparr>doc_values :=
            (doc_values ex_form)
              (''I1'' := BoolValue True, ''D2'' := BoolValue True,
               ''T2'' := StrValue ''Crack in slab'')\<rparr>, 2, 2)"
proof -
  have m: "(2, 1, [''I2'', ''NI2'', ''NP2'', ''D2''], 1) \<in>
     set (table_placements (analyze_fields ex_form_pages) (all_line_items ex_inspection))"
    by (simp add: ex_table_placements)
  have run: "run_placements (analyze_fields ex_form_pages) (all_line_items ex_inspection)
      [(2, 0, [''I1'', ''NI1'', ''NP1'', ''D1''], 0), (2, 1, [''I2'', ''NI2'', ''NP2'', ''D2''], 1)]
      (ex_form, 0, 0) =
     Inr (ex_form\<lparr>doc_values :=
            (doc_values ex_form)
              (''I1'' := BoolValue True, ''D2'' := BoolValue True,
               ''T2'' := StrValue ''Crack in slab'')\<rparr>, 2, 2)"
    by (simp add: ex_all_line_items ex_form_groups ex_form_find fill_checkbox_for_status_eq
        write_in_doc_eq selected_index_def fill_slot_text_def fill_text_field_def
        flatten_item_def get_or_def py_slice_def ex_item_a_def ex_item_b_def ex_comment_a_def
        ex_form_def ex_checkbox_def ex_text_field_def)
  from paginator_ranges [of ex_form "analyze_fields ex_form_pages" ex_inspection]
  have eq: "fill_inspection_checkboxes ex_form (analyze_fields ex_form_pages) ex_inspection =
      run_placements (analyze_fields ex_form_pages) (all_line_items ex_inspection)
        (table_placements (analyze_fields ex_form_pages) (all_line_items ex_inspection))
        (ex_form, 0, 0)"
    by (rule conjunct1)
  have i: "all_line_items ex_inspection ! 1 = flatten_item ex_section_a ex_item_a"
    by (simp add: ex_all_line_items)
  show ?thesis
    by (intro conjI) (rule m, rule ex_table_placements, rule i, simp only: eq ex_table_placements run)
qed

end
